theory Spec2Isabelle
  imports Complex_Main
begin

section \<open>Python values\<close>

text \<open>
  The fetch layer hands on whatever \<^verbatim>\<open>response.json()\<close> parsed, so the values the
  service computes with are the Python values a JSON document denotes. A dict is kept
  as the list of its items in insertion order (its keys are distinct). A float is kept by
  its exact value, with the three special values the parser also accepts.
\<close>

datatype pyfloat = Finite rat | PosInf | NegInf | NaN

datatype json =
    JNull
  | JBool bool
  | JInt int
  | JFloat pyfloat
  | JStr string
  | JArr "json list"
  | JObj "(string \<times> json) list"

text \<open>
  The exceptions that can arise. A failed transport and a 4xx or 5xx status are the two
  kinds of \<^verbatim>\<open>requests.RequestException\<close>; the others are the errors of the Python
  operations on values.
\<close>

datatype transport_failure = ConnectionError | Timeout

datatype pyerr =
    RequestFailed transport_failure
  | HTTPError nat
  | KeyError string
  | TypeError
  | AttributeError

fun is_request_exception :: "pyerr \<Rightarrow> bool" where
  "is_request_exception (RequestFailed f) = True"
| "is_request_exception (HTTPError code) = True"
| "is_request_exception e = False"

subsection \<open>Strings\<close>

text \<open>
  Strings are modelled as ASCII text: the case mappings act on the letters a-z and A-Z,
  and every other character is uncased and left as it is.
\<close>

definition is_lower :: "char \<Rightarrow> bool" where
  "is_lower c = (97 \<le> (of_char c :: nat) \<and> (of_char c :: nat) \<le> 122)"

definition is_upper :: "char \<Rightarrow> bool" where
  "is_upper c = (65 \<le> (of_char c :: nat) \<and> (of_char c :: nat) \<le> 90)"

definition is_cased :: "char \<Rightarrow> bool" where
  "is_cased c = (is_lower c \<or> is_upper c)"

definition to_lower :: "char \<Rightarrow> char" where
  "to_lower c = (if is_upper c then char_of ((of_char c :: nat) + 32) else c)"

definition to_upper :: "char \<Rightarrow> char" where
  "to_upper c = (if is_lower c then char_of ((of_char c :: nat) - 32) else c)"

text \<open>\<^verbatim>\<open>str.lower()\<close>\<close>

definition str_lower :: "string \<Rightarrow> string" where
  "str_lower s = map to_lower s"

text \<open>
  \<^verbatim>\<open>str.title()\<close>: a character that follows a cased character is lowercased, any other
  character is titlecased (uppercased, for ASCII).
\<close>

fun title_from :: "bool \<Rightarrow> string \<Rightarrow> string" where
  "title_from previous_is_cased [] = []"
| "title_from previous_is_cased (c # cs) =
     (if previous_is_cased then to_lower c else to_upper c) # title_from (is_cased c) cs"

definition str_title :: "string \<Rightarrow> string" where
  "str_title s = title_from False s"

text \<open>\<^verbatim>\<open>a in b\<close> on two strings: \<open>a\<close> occurs in \<open>b\<close> as a contiguous substring.\<close>

fun starts_with :: "string \<Rightarrow> string \<Rightarrow> bool" where
  "starts_with [] t = True"
| "starts_with (c # cs) [] = False"
| "starts_with (c # cs) (d # ds) = (c = d \<and> starts_with cs ds)"

fun str_contains :: "string \<Rightarrow> string \<Rightarrow> bool" where
  "str_contains a [] = (a = [])"
| "str_contains a (d # ds) = (starts_with a (d # ds) \<or> str_contains a ds)"

text \<open>\<^verbatim>\<open>str(n)\<close> of an integer: its decimal digits, with a minus sign when negative.\<close>

definition digit_char :: "nat \<Rightarrow> char" where
  "digit_char d = ''0123456789'' ! d"

fun digits10 :: "nat \<Rightarrow> string" where
  "digits10 n = (if n < 10 then [digit_char n] else digits10 (n div 10) @ [digit_char (n mod 10)])"

definition str_int :: "int \<Rightarrow> string" where
  "str_int i = (if i < 0 then CHR ''-'' # digits10 (nat (- i)) else digits10 (nat i))"

subsection \<open>Operations on values\<close>

text \<open>Truth value of a Python value, as \<^verbatim>\<open>if v:\<close> and \<^verbatim>\<open>not v\<close> take it.\<close>

fun truthy :: "json \<Rightarrow> bool" where
  "truthy JNull = False"
| "truthy (JBool b) = b"
| "truthy (JInt i) = (i \<noteq> 0)"
| "truthy (JFloat (Finite r)) = (r \<noteq> 0)"
| "truthy (JFloat f) = True"
| "truthy (JStr s) = (s \<noteq> [])"
| "truthy (JArr xs) = (xs \<noteq> [])"
| "truthy (JObj kvs) = (kvs \<noteq> [])"

text \<open>\<^verbatim>\<open>v[key]\<close> with a string key: only a dict can be subscripted by a string.\<close>

fun getitem :: "json \<Rightarrow> string \<Rightarrow> pyerr + json" where
  "getitem (JObj kvs) k = (case map_of kvs k of None \<Rightarrow> Inl (KeyError k) | Some v \<Rightarrow> Inr v)"
| "getitem v k = Inl TypeError"

text \<open>
  The items a \<^verbatim>\<open>for\<close> loop or a comprehension draws from a value: the elements of a
  list, the keys of a dict, the characters of a string; anything else is not iterable.
\<close>

fun iterate :: "json \<Rightarrow> pyerr + json list" where
  "iterate (JArr xs) = Inr xs"
| "iterate (JObj kvs) = Inr (map (\<lambda>kv. JStr (fst kv)) kvs)"
| "iterate (JStr s) = Inr (map (\<lambda>c. JStr [c]) s)"
| "iterate v = Inl TypeError"

text \<open>The string methods exist on strings only.\<close>

fun title_method :: "json \<Rightarrow> pyerr + string" where
  "title_method (JStr s) = Inr (str_title s)"
| "title_method v = Inl AttributeError"

fun lower_method :: "json \<Rightarrow> pyerr + string" where
  "lower_method (JStr s) = Inr (str_lower s)"
| "lower_method v = Inl AttributeError"

text \<open>\<^verbatim>\<open>v != n\<close> for an integer \<open>n\<close>: numbers compare by value, and a bool is the integer 0 or 1.\<close>

fun eq_int :: "json \<Rightarrow> int \<Rightarrow> bool" where
  "eq_int (JInt i) n = (i = n)"
| "eq_int (JBool b) n = ((if b then 1 else 0) = n)"
| "eq_int (JFloat (Finite r)) n = (r = of_int n)"
| "eq_int v n = False"

text \<open>\<^verbatim>\<open>xs[:n]\<close>: a negative bound counts from the end.\<close>

definition slice_to :: "int \<Rightarrow> 'a list \<Rightarrow> 'a list" where
  "slice_to n xs = (if n < 0 then take (length xs - nat (- n)) xs else take (nat n) xs)"

section \<open>The store\<close>

text \<open>
  Modelled from the spec: the module \<^verbatim>\<open>database.models\<close> is not among the sources. The
  three entities carry the attributes the service reads and writes. The generated id of an
  object is absent until the object has been flushed. The name of a product and the price
  and image of a variant hold the value of the fetched record as it is.
\<close>

record categoria =
  id_categoria :: "int option"
  nombre :: string

record producto =
  id_producto :: "int option"
  prod_nombre :: json
  prod_id_categoria :: "int option"
  marca :: string

record variante =
  id_variante :: "int option"
  var_id_producto :: "int option"
  sku :: string
  talla :: string
  color :: string
  precio :: json
  image_url :: json

datatype entity = Categoria categoria | Producto producto | ProductoVariante variante

text \<open>
  Modelled from the spec: the session is a relational-store session with the operations
  query-by-equality-filter-returning-first, add-pending-entity, flush-pending-writes and
  commit. \<open>rows\<close> holds the rows written so far, in the order of their INSERT; \<open>pending\<close>
  the objects added and not yet flushed. Whether a query flushes the pending objects
  before it reads is a setting of the session, which the caller creates: \<open>autoflush\<close>
  holds it (the library's default is to flush). The remaining fields record what the
  service does to the world outside: the URLs requested and the log records written.
\<close>

datatype log_site =
    AtGetCategories
  | AtGetProducts
  | AtGetProductById int
  | AtGetProductsByCategory json
  | AtSearch
  | AtRecommendations

datatype log_record =
    LogError log_site pyerr
  | LogInfoCategorias int
  | LogInfoProductos int

record state =
  rows :: "entity list"
  pending :: "entity list"
  autoflush :: bool
  next_id_categoria :: int
  next_id_producto :: int
  next_id_variante :: int
  commits :: nat
  calls :: "string list"
  logs :: "log_record list"

section \<open>Computations that may raise\<close>

text \<open>
  A computation runs on the state and either returns a value or raises; what it did to the
  state before raising stays done.
\<close>

type_synonym 'a prog = "state \<Rightarrow> (pyerr + 'a) \<times> state"

definition ret :: "'a \<Rightarrow> 'a prog" where
  "ret x = (\<lambda>s. (Inr x, s))"

definition throw :: "pyerr \<Rightarrow> 'a prog" where
  "throw e = (\<lambda>s. (Inl e, s))"

definition lift :: "pyerr + 'a \<Rightarrow> 'a prog" where
  "lift r = (\<lambda>s. (r, s))"

definition andthen :: "'a prog \<Rightarrow> ('a \<Rightarrow> 'b prog) \<Rightarrow> 'b prog" where
  "andthen m f = (\<lambda>s. case m s of (Inl e, s') \<Rightarrow> (Inl e, s') | (Inr x, s') \<Rightarrow> f x s')"

text \<open>\<^verbatim>\<open>try: m except E as e: h(e)\<close>, where \<open>catches\<close> tells the exceptions of class \<open>E\<close>.\<close>

definition try_except :: "'a prog \<Rightarrow> (pyerr \<Rightarrow> bool) \<Rightarrow> (pyerr \<Rightarrow> 'a prog) \<Rightarrow> 'a prog" where
  "try_except m catches h =
     (\<lambda>s. case m s of (Inl e, s') \<Rightarrow> (if catches e then h e s' else (Inl e, s')) | (Inr x, s') \<Rightarrow> (Inr x, s'))"

text \<open>\<^verbatim>\<open>except Exception\<close> catches every exception of the model.\<close>

definition any_exception :: "pyerr \<Rightarrow> bool" where
  "any_exception e = True"

text \<open>A \<^verbatim>\<open>for\<close> loop over items, carrying the local variable the body updates.\<close>

fun for_each :: "'x list \<Rightarrow> ('x \<Rightarrow> 'a \<Rightarrow> 'a prog) \<Rightarrow> 'a \<Rightarrow> 'a prog" where
  "for_each [] body acc = ret acc"
| "for_each (x # xs) body acc = andthen (body x acc) (for_each xs body)"

definition logger :: "log_record \<Rightarrow> unit prog" where
  "logger r = (\<lambda>s. (Inr (), s\<lparr>logs := logs s @ [r]\<rparr>))"

section \<open>The external API\<close>

text \<open>
  The HTTP transport is outside the service: \<open>http_get\<close> tells, for a URL, whether the GET
  fails in transport or answers with a status code and a body (taken as parsed JSON).
  \<open>py_repr\<close> is the text Python prints for a float, a list or a dict inside an f-string.
\<close>

datatype response = Fails transport_failure | Answers nat json

record env =
  http_get :: "string \<Rightarrow> response"
  py_repr :: "json \<Rightarrow> string"

definition base_url :: string where
  "base_url = ''https://fakestoreapi.com''"

text \<open>\<^verbatim>\<open>requests.get(url, timeout=...)\<close>: the request is issued, and a transport failure raises.\<close>

definition requests_get :: "env \<Rightarrow> string \<Rightarrow> (nat \<times> json) prog" where
  "requests_get ev url =
     (\<lambda>s. (case http_get ev url of
              Fails f \<Rightarrow> Inl (RequestFailed f)
            | Answers code body \<Rightarrow> Inr (code, body),
           s\<lparr>calls := calls s @ [url]\<rparr>))"

text \<open>\<^verbatim>\<open>response.raise_for_status()\<close>: a 4xx or 5xx status raises \<^verbatim>\<open>HTTPError\<close>.\<close>

definition raise_for_status :: "nat \<times> json \<Rightarrow> unit prog" where
  "raise_for_status resp =
     (if 400 \<le> fst resp \<and> fst resp < 600 then throw (HTTPError (fst resp)) else ret ())"

text \<open>The common shape of the four fetch operations (lines 21-59).\<close>

definition fetch :: "env \<Rightarrow> string \<Rightarrow> log_site \<Rightarrow> json \<Rightarrow> json prog" where
  "fetch ev url site dflt =
     try_except
       (andthen (requests_get ev url) (\<lambda>response.
        andthen (raise_for_status response) (\<lambda>_.
        ret (snd response))))
       is_request_exception
       (\<lambda>e. andthen (logger (LogError site e)) (\<lambda>_. ret dflt))"

definition get_categories :: "env \<Rightarrow> json prog" where
  "get_categories ev = fetch ev (base_url @ ''/products/categories'') AtGetCategories (JArr [])"

definition get_products :: "env \<Rightarrow> int \<Rightarrow> json prog" where
  "get_products ev limit =
     fetch ev (base_url @ ''/products?limit='' @ str_int limit) AtGetProducts (JArr [])"

definition get_product_by_id :: "env \<Rightarrow> int \<Rightarrow> json prog" where
  "get_product_by_id ev product_id =
     fetch ev (base_url @ ''/products/'' @ str_int product_id) (AtGetProductById product_id) JNull"

text \<open>
  \<^verbatim>\<open>f"{v}"\<close>: the text of a value inside an f-string. The callers hand on fetched
  values, so the category of \<open>get_products_by_category\<close> is any value.
\<close>

fun format_value :: "env \<Rightarrow> json \<Rightarrow> string" where
  "format_value ev (JStr s) = s"
| "format_value ev (JInt i) = str_int i"
| "format_value ev (JBool b) = (if b then ''True'' else ''False'')"
| "format_value ev JNull = ''None''"
| "format_value ev v = py_repr ev v"

definition get_products_by_category :: "env \<Rightarrow> json \<Rightarrow> json prog" where
  "get_products_by_category ev category =
     fetch ev (base_url @ ''/products/category/'' @ format_value ev category)
       (AtGetProductsByCategory category) (JArr [])"

section \<open>Session operations\<close>

text \<open>\<^verbatim>\<open>db.add(obj)\<close>\<close>

definition db_add :: "entity \<Rightarrow> unit prog" where
  "db_add e = (\<lambda>s. (Inr (), s\<lparr>pending := pending s @ [e]\<rparr>))"

text \<open>Writing one pending object: the store generates its id and the row is inserted.\<close>

fun flush_one :: "entity \<Rightarrow> state \<Rightarrow> state" where
  "flush_one (Categoria c) s =
     s\<lparr>rows := rows s @ [Categoria (c\<lparr>id_categoria := Some (next_id_categoria s)\<rparr>)],
       next_id_categoria := next_id_categoria s + 1\<rparr>"
| "flush_one (Producto p) s =
     s\<lparr>rows := rows s @ [Producto (p\<lparr>id_producto := Some (next_id_producto s)\<rparr>)],
       next_id_producto := next_id_producto s + 1\<rparr>"
| "flush_one (ProductoVariante v) s =
     s\<lparr>rows := rows s @ [ProductoVariante (v\<lparr>id_variante := Some (next_id_variante s)\<rparr>)],
       next_id_variante := next_id_variante s + 1\<rparr>"

definition flushed :: "state \<Rightarrow> state" where
  "flushed s = (fold flush_one (pending s) s)\<lparr>pending := []\<rparr>"

text \<open>\<^verbatim>\<open>db.flush()\<close>\<close>

definition db_flush :: "unit prog" where
  "db_flush = (\<lambda>s. (Inr (), flushed s))"

text \<open>\<^verbatim>\<open>db.commit()\<close>\<close>

definition db_commit :: "unit prog" where
  "db_commit = (\<lambda>s. (Inr (), (flushed s)\<lparr>commits := Suc (commits s)\<rparr>))"

fun find_categoria :: "string \<Rightarrow> entity list \<Rightarrow> categoria option" where
  "find_categoria name [] = None"
| "find_categoria name (Categoria c # es) = (if nombre c = name then Some c else find_categoria name es)"
| "find_categoria name (e # es) = find_categoria name es"

fun find_producto :: "json \<Rightarrow> entity list \<Rightarrow> producto option" where
  "find_producto name [] = None"
| "find_producto name (Producto p # es) = (if prod_nombre p = name then Some p else find_producto name es)"
| "find_producto name (e # es) = find_producto name es"

text \<open>The session as a query finds it: flushed first, when the session autoflushes.\<close>

definition before_query :: "state \<Rightarrow> state" where
  "before_query s = (if autoflush s then flushed s else s)"

text \<open>\<^verbatim>\<open>db.query(Categoria).filter(Categoria.nombre == name).first()\<close>\<close>

definition query_categoria :: "string \<Rightarrow> categoria option prog" where
  "query_categoria name =
     (\<lambda>s. (Inr (find_categoria name (rows (before_query s))), before_query s))"

text \<open>\<^verbatim>\<open>db.query(Producto).filter(Producto.nombre == name).first()\<close>\<close>

definition query_producto :: "json \<Rightarrow> producto option prog" where
  "query_producto name =
     (\<lambda>s. (Inr (find_producto name (rows (before_query s))), before_query s))"

text \<open>
  The object that was just added and flushed, as it stands in the session afterwards (with
  its generated id): the newest row of its table.
\<close>

fun last_categoria :: "entity list \<Rightarrow> categoria option" where
  "last_categoria [] = None"
| "last_categoria (Categoria c # es) = (case last_categoria es of None \<Rightarrow> Some c | Some d \<Rightarrow> Some d)"
| "last_categoria (e # es) = last_categoria es"

fun last_producto :: "entity list \<Rightarrow> producto option" where
  "last_producto [] = None"
| "last_producto (Producto p # es) = (case last_producto es of None \<Rightarrow> Some p | Some d \<Rightarrow> Some d)"
| "last_producto (e # es) = last_producto es"

definition newest_categoria :: "categoria option prog" where
  "newest_categoria = (\<lambda>s. (Inr (last_categoria (rows s)), s))"

definition newest_producto :: "producto option prog" where
  "newest_producto = (\<lambda>s. (Inr (last_producto (rows s)), s))"

text \<open>Reading the id attribute of an object; \<^verbatim>\<open>None\<close> has no attributes.\<close>

definition attr_id_categoria :: "categoria option \<Rightarrow> int option prog" where
  "attr_id_categoria obj = (case obj of None \<Rightarrow> throw AttributeError | Some c \<Rightarrow> ret (id_categoria c))"

definition attr_id_producto :: "producto option \<Rightarrow> int option prog" where
  "attr_id_producto obj = (case obj of None \<Rightarrow> throw AttributeError | Some p \<Rightarrow> ret (id_producto p))"

section \<open>The sync layer\<close>

text \<open>The body of the loop of \<^verbatim>\<open>sync_categories_to_db\<close> (lines 66-74).\<close>

definition sync_categoria :: "json \<Rightarrow> int \<Rightarrow> int prog" where
  "sync_categoria cat_name created_count =
     andthen (lift (title_method cat_name)) (\<lambda>normalized_name.
     andthen (query_categoria normalized_name) (\<lambda>existing.
     case existing of
       None \<Rightarrow>
         andthen (db_add (Categoria \<lparr>id_categoria = None, nombre = normalized_name\<rparr>)) (\<lambda>_.
         ret (created_count + 1))
     | Some c \<Rightarrow> ret created_count))"

text \<open>\<^verbatim>\<open>sync_categories_to_db\<close> (lines 61-78).\<close>

definition sync_categories_to_db :: "env \<Rightarrow> int prog" where
  "sync_categories_to_db ev =
     andthen (get_categories ev) (\<lambda>api_categories.
     andthen (lift (iterate api_categories)) (\<lambda>items.
     andthen (for_each items sync_categoria 0) (\<lambda>created_count.
     andthen db_commit (\<lambda>_.
     andthen (logger (LogInfoCategorias created_count)) (\<lambda>_.
     ret created_count)))))"

text \<open>The body of the loop of \<^verbatim>\<open>sync_products_to_db\<close> (lines 85-121).\<close>

definition sync_product :: "env \<Rightarrow> json \<Rightarrow> int \<Rightarrow> int prog" where
  "sync_product ev product_data created_count =
     andthen (lift (getitem product_data ''category'')) (\<lambda>category.
     andthen (lift (title_method category)) (\<lambda>name.
     andthen (query_categoria name) (\<lambda>found.
     andthen (case found of
                Some c \<Rightarrow> ret (Some c)
              | None \<Rightarrow>
                  andthen (lift (getitem product_data ''category'')) (\<lambda>category.
                  andthen (lift (title_method category)) (\<lambda>name.
                  andthen (db_add (Categoria \<lparr>id_categoria = None, nombre = name\<rparr>)) (\<lambda>_.
                  andthen db_flush (\<lambda>_.
                  newest_categoria))))) (\<lambda>categoria.
     andthen (lift (getitem product_data ''title'')) (\<lambda>title.
     andthen (query_producto title) (\<lambda>existing_product.
     case existing_product of
       Some p \<Rightarrow> ret created_count
     | None \<Rightarrow>
         andthen (lift (getitem product_data ''title'')) (\<lambda>title.
         andthen (attr_id_categoria categoria) (\<lambda>cid.
         andthen (db_add (Producto \<lparr>id_producto = None, prod_nombre = title,
                                    prod_id_categoria = cid, marca = ''API Externa''\<rparr>)) (\<lambda>_.
         andthen db_flush (\<lambda>_.
         andthen newest_producto (\<lambda>producto.
         andthen (attr_id_producto producto) (\<lambda>pid.
         andthen (lift (getitem product_data ''id'')) (\<lambda>external_id.
         andthen (lift (getitem product_data ''price'')) (\<lambda>price.
         andthen (lift (getitem product_data ''image'')) (\<lambda>image.
         andthen (db_add (ProductoVariante \<lparr>id_variante = None, var_id_producto = pid,
                            sku = ''API-'' @ format_value ev external_id, talla = ''M'',
                            color = ''N/A'', precio = price, image_url = image\<rparr>)) (\<lambda>_.
         ret (created_count + 1)))))))))))))))))"

text \<open>\<^verbatim>\<open>sync_products_to_db\<close> (lines 80-125).\<close>

definition sync_products_to_db :: "env \<Rightarrow> int \<Rightarrow> int prog" where
  "sync_products_to_db ev limit =
     andthen (get_products ev limit) (\<lambda>api_products.
     andthen (lift (iterate api_products)) (\<lambda>items.
     andthen (for_each items (sync_product ev) 0) (\<lambda>created_count.
     andthen db_commit (\<lambda>_.
     andthen (logger (LogInfoProductos created_count)) (\<lambda>_.
     ret created_count)))))"

section \<open>Search and recommendations\<close>

text \<open>A list comprehension with a condition that may raise.\<close>

fun filter_raising :: "('x \<Rightarrow> pyerr + bool) \<Rightarrow> 'x list \<Rightarrow> pyerr + 'x list" where
  "filter_raising cond [] = Inr []"
| "filter_raising cond (x # xs) =
     (case cond x of
        Inl e \<Rightarrow> Inl e
      | Inr b \<Rightarrow> (case filter_raising cond xs of
                   Inl e \<Rightarrow> Inl e
                 | Inr ys \<Rightarrow> Inr (if b then x # ys else ys)))"

text \<open>\<^verbatim>\<open>query.lower() in p['title'].lower()\<close>\<close>

definition title_matches :: "string \<Rightarrow> json \<Rightarrow> pyerr + bool" where
  "title_matches query p =
     (case getitem p ''title'' of
        Inl e \<Rightarrow> Inl e
      | Inr t \<Rightarrow> (case lower_method t of
                  Inl e \<Rightarrow> Inl e
                | Inr lowered \<Rightarrow> Inr (str_contains (str_lower query) lowered)))"

text \<open>\<^verbatim>\<open>search_products\<close> (lines 127-145). An empty category string is falsy, as \<^verbatim>\<open>None\<close> is.\<close>

definition search_products :: "env \<Rightarrow> string \<Rightarrow> string option \<Rightarrow> json list prog" where
  "search_products ev query category =
     try_except
       (andthen (case category of
                   None \<Rightarrow> get_products ev 100
                 | Some c \<Rightarrow> if c \<noteq> [] then get_products_by_category ev (JStr c)
                             else get_products ev 100) (\<lambda>products.
        andthen (lift (iterate products)) (\<lambda>items.
        andthen (lift (filter_raising (title_matches query) items)) (\<lambda>filtered_products.
        ret (slice_to 20 filtered_products)))))
       any_exception
       (\<lambda>e. andthen (logger (LogError AtSearch e)) (\<lambda>_. ret []))"

text \<open>\<^verbatim>\<open>p['id'] != product_id\<close>\<close>

definition id_differs :: "int \<Rightarrow> json \<Rightarrow> pyerr + bool" where
  "id_differs product_id p =
     (case getitem p ''id'' of Inl e \<Rightarrow> Inl e | Inr i \<Rightarrow> Inr (\<not> eq_int i product_id))"

text \<open>\<^verbatim>\<open>get_product_recommendations\<close> (lines 147-168).\<close>

definition get_product_recommendations :: "env \<Rightarrow> int \<Rightarrow> int \<Rightarrow> json list prog" where
  "get_product_recommendations ev product_id limit =
     try_except
       (andthen (get_product_by_id ev product_id) (\<lambda>base_product.
        if \<not> truthy base_product then ret []
        else
          andthen (lift (getitem base_product ''category'')) (\<lambda>category.
          andthen (get_products_by_category ev category) (\<lambda>category_products.
          andthen (lift (iterate category_products)) (\<lambda>items.
          andthen (lift (filter_raising (id_differs product_id) items)) (\<lambda>recommendations.
          ret (slice_to limit recommendations)))))))
       any_exception
       (\<lambda>e. andthen (logger (LogError AtRecommendations e)) (\<lambda>_. ret []))"

section \<open>The client\<close>

text \<open>\<^verbatim>\<open>sync_all_data\<close> (lines 176-186); the result dict is the pair of its two counts.\<close>

definition sync_all_data :: "env \<Rightarrow> int \<Rightarrow> (int \<times> int) prog" where
  "sync_all_data ev products_limit =
     andthen (sync_categories_to_db ev) (\<lambda>categories_synced.
     andthen (sync_products_to_db ev products_limit) (\<lambda>products_synced.
     ret (categories_synced, products_synced)))"

text \<open>\<^verbatim>\<open>search_and_sync\<close> (lines 188-196).\<close>

definition search_and_sync :: "env \<Rightarrow> string \<Rightarrow> string option \<Rightarrow> json list prog" where
  "search_and_sync ev query category =
     andthen (search_products ev query category) (\<lambda>results.
     andthen (for_each (slice_to 5 results) (\<lambda>product u.
        andthen (sync_products_to_db ev 1) (\<lambda>_. ret u)) ()) (\<lambda>_.
     ret results))"

text \<open>\<^verbatim>\<open>sync_external_data\<close> (lines 203-206).\<close>

definition sync_external_data :: "env \<Rightarrow> int \<Rightarrow> (int \<times> int) prog" where
  "sync_external_data ev products_limit = sync_all_data ev products_limit"

section \<open>Vocabulary of the statements\<close>

text \<open>
  What the GET of a URL signals, if it signals an error, and the value a fetch operation
  hands on for it: the body, or the operation's default when an error was signalled.
\<close>

definition signals :: "env \<Rightarrow> string \<Rightarrow> pyerr option" where
  "signals ev url =
     (case http_get ev url of
        Fails f \<Rightarrow> Some (RequestFailed f)
      | Answers code body \<Rightarrow> if 400 \<le> code \<and> code < 600 then Some (HTTPError code) else None)"

definition payload :: "env \<Rightarrow> string \<Rightarrow> json \<Rightarrow> json" where
  "payload ev url dflt =
     (case http_get ev url of
        Fails f \<Rightarrow> dflt
      | Answers code body \<Rightarrow> if 400 \<le> code \<and> code < 600 then dflt else body)"

text \<open>Reading a decimal numeral back, to say what \<open>str_int\<close> writes.\<close>

definition digit_value :: "char \<Rightarrow> nat" where
  "digit_value c = (of_char c :: nat) - 48"

definition read_decimal :: "string \<Rightarrow> nat" where
  "read_decimal s = fold (\<lambda>c n. 10 * n + digit_value c) s 0"

text \<open>The names of the category rows and of the product rows, in the order of the rows.\<close>

fun categoria_names :: "entity list \<Rightarrow> string list" where
  "categoria_names [] = []"
| "categoria_names (Categoria c # es) = nombre c # categoria_names es"
| "categoria_names (e # es) = categoria_names es"

fun producto_names :: "entity list \<Rightarrow> json list" where
  "producto_names [] = []"
| "producto_names (Producto p # es) = prod_nombre p # producto_names es"
| "producto_names (e # es) = producto_names es"

fun categoria_ids :: "entity list \<Rightarrow> int option list" where
  "categoria_ids [] = []"
| "categoria_ids (Categoria c # es) = id_categoria c # categoria_ids es"
| "categoria_ids (e # es) = categoria_ids es"

fun variante_rows :: "entity list \<Rightarrow> variante list" where
  "variante_rows [] = []"
| "variante_rows (ProductoVariante v # es) = v # variante_rows es"
| "variante_rows (e # es) = variante_rows es"

text \<open>
  A product record, as the fetch layer is to deliver it: a dict with the five keys, its
  category a string. \<open>field\<close> reads a key of a record, \<open>category_of\<close> its category name.
\<close>

definition field :: "json \<Rightarrow> string \<Rightarrow> json" where
  "field p k = (case getitem p k of Inl e \<Rightarrow> JNull | Inr v \<Rightarrow> v)"

definition has_key :: "json \<Rightarrow> string \<Rightarrow> bool" where
  "has_key p k = (case getitem p k of Inl e \<Rightarrow> False | Inr v \<Rightarrow> True)"

definition category_of :: "json \<Rightarrow> string" where
  "category_of p = (case getitem p ''category'' of Inr (JStr c) \<Rightarrow> c | _ \<Rightarrow> [])"

definition product_record :: "json \<Rightarrow> bool" where
  "product_record p =
     ((case getitem p ''category'' of Inr (JStr c) \<Rightarrow> True | _ \<Rightarrow> False) \<and>
      has_key p ''title'' \<and> has_key p ''id'' \<and> has_key p ''price'' \<and> has_key p ''image'')"

text \<open>
  \<open>paired ev ps rows\<close>: in \<open>rows\<close>, every product row is directly followed by one variant
  row, which carries the product's id and the values of the first record of \<open>ps\<close> with the
  product's name; there is no other variant row.
\<close>

fun paired :: "env \<Rightarrow> json list \<Rightarrow> entity list \<Rightarrow> bool" where
  "paired ev ps [] = True"
| "paired ev ps (Categoria c # es) = paired ev ps es"
| "paired ev ps (Producto p # ProductoVariante v # es) =
     (marca p = ''API Externa'' \<and> var_id_producto v = id_producto p \<and>
      (case find (\<lambda>r. field r ''title'' = prod_nombre p) ps of
         None \<Rightarrow> False
       | Some r \<Rightarrow>
           sku v = ''API-'' @ format_value ev (field r ''id'') \<and> talla v = ''M'' \<and>
           color v = ''N/A'' \<and> precio v = field r ''price'' \<and> image_url v = field r ''image'') \<and>
      paired ev ps es)"
| "paired ev ps es = False"

text \<open>
  \<open>refs_ok before rows\<close>: every product row of \<open>rows\<close> refers to the id of a category row
  that stands before it, in \<open>before\<close> or earlier in \<open>rows\<close>.
\<close>

fun refs_ok :: "entity list \<Rightarrow> entity list \<Rightarrow> bool" where
  "refs_ok before [] = True"
| "refs_ok before (Producto p # es) =
     (prod_id_categoria p \<in> set (categoria_ids before) \<and> refs_ok (before @ [Producto p]) es)"
| "refs_ok before (e # es) = refs_ok (before @ [e]) es"

text \<open>
  The URL \<open>search_products\<close> draws its pool from: a category is given when it is a
  string that is not empty (the test of line 130). \<open>titled\<close> tells the values that are
  records with a string title, \<open>title_contains\<close> whether the title of such a record
  contains the query, case-insensitively.
\<close>

definition search_url :: "string option \<Rightarrow> string" where
  "search_url category =
     (case category of
        None \<Rightarrow> base_url @ ''/products?limit=100''
      | Some c \<Rightarrow> if c = [] then base_url @ ''/products?limit=100''
                  else base_url @ ''/products/category/'' @ c)"

definition titled :: "json \<Rightarrow> bool" where
  "titled p = (case getitem p ''title'' of Inr (JStr t) \<Rightarrow> True | _ \<Rightarrow> False)"

definition title_contains :: "string \<Rightarrow> json \<Rightarrow> bool" where
  "title_contains query p =
     (case getitem p ''title'' of
        Inr (JStr t) \<Rightarrow> str_contains (str_lower query) (str_lower t)
      | _ \<Rightarrow> False)"

section \<open>Sample inputs\<close>

definition empty_store :: state where
  "empty_store =
     \<lparr>rows = [], pending = [], autoflush = True, next_id_categoria = 1, next_id_producto = 1,
      next_id_variante = 1, commits = 0, calls = [], logs = []\<rparr>"

text \<open>An API that cannot be reached.\<close>

definition api_down :: env where
  "api_down = \<lparr>http_get = (\<lambda>url. Fails Timeout), py_repr = (\<lambda>v. [])\<rparr>"

text \<open>An API that lists three category names, two of which title-case to the same name.\<close>

definition api_categories :: env where
  "api_categories =
     \<lparr>http_get = (\<lambda>url. if url = ''https://fakestoreapi.com/products/categories''
                          then Answers 200 (JArr [JStr ''electronics'', JStr ''jewelery'', JStr ''ELECTRONICS''])
                          else Fails ConnectionError),
      py_repr = (\<lambda>v. [])\<rparr>"

text \<open>The API of the scenario of the spec, with the title in lower case.\<close>

definition shirt :: json where
  "shirt =
     JObj [(''id'', JInt 1), (''title'', JStr ''shirt''), (''category'', JStr ''men's clothing''),
           (''price'', JFloat (Finite (999 / 100))), (''image'', JStr ''u1'')]"

definition lamp :: json where
  "lamp =
     JObj [(''id'', JInt 2), (''title'', JStr ''Lamp''), (''category'', JStr ''home''),
           (''price'', JInt 5), (''image'', JStr ''u2'')]"

definition api_shop :: env where
  "api_shop =
     \<lparr>http_get = (\<lambda>url. if url = ''https://fakestoreapi.com/products?limit=1''
                          then Answers 200 (JArr [shirt])
                          else if url = ''https://fakestoreapi.com/products?limit=100''
                          then Answers 200 (JArr [shirt, lamp])
                          else Fails ConnectionError),
      py_repr = (\<lambda>v. [])\<rparr>"

text \<open>The same API after the price and the image of the shirt have changed.\<close>

definition shirt_repriced :: json where
  "shirt_repriced =
     JObj [(''id'', JInt 1), (''title'', JStr ''shirt''), (''category'', JStr ''men's clothing''),
           (''price'', JFloat (Finite (1299 / 100))), (''image'', JStr ''u9'')]"

definition api_repriced :: env where
  "api_repriced =
     \<lparr>http_get = (\<lambda>url. if url = ''https://fakestoreapi.com/products?limit=1''
                          then Answers 200 (JArr [shirt_repriced])
                          else Fails ConnectionError),
      py_repr = (\<lambda>v. [])\<rparr>"

text \<open>
  An API with product 5 and the four products of its category, and an API whose answers
  are not of the expected shape.
\<close>

definition gadget :: "int \<Rightarrow> json" where
  "gadget n =
     JObj [(''id'', JInt n), (''title'', JStr ''Gadget''), (''category'', JStr ''electronics''),
           (''price'', JInt 10), (''image'', JStr ''g'')]"

definition api_electronics :: env where
  "api_electronics =
     \<lparr>http_get = (\<lambda>url. if url = ''https://fakestoreapi.com/products/5''
                          then Answers 200 (gadget 5)
                          else if url = ''https://fakestoreapi.com/products/category/electronics''
                          then Answers 200 (JArr [gadget 5, gadget 6, gadget 7, gadget 8])
                          else Answers 404 JNull),
      py_repr = (\<lambda>v. [])\<rparr>"

definition api_malformed :: env where
  "api_malformed =
     \<lparr>http_get = (\<lambda>url. if url = ''https://fakestoreapi.com/products?limit=1''
                          then Answers 200 (JArr [JObj [(''id'', JInt 1), (''title'', JStr ''shirt'')]])
                          else if url = ''https://fakestoreapi.com/products/categories''
                          then Answers 200 (JArr [JInt 7])
                          else if url = ''https://fakestoreapi.com/products?limit=100''
                          then Answers 200 (JArr [lamp, JObj [(''id'', JInt 3)]])
                          else if url = ''https://fakestoreapi.com/products/category/tools''
                          then Answers 200 (JInt 3)
                          else Fails ConnectionError),
      py_repr = (\<lambda>v. [])\<rparr>"

text \<open>A session that does not autoflush, and an API that lists two distinct category names.\<close>

definition plain_store :: state where
  "plain_store = empty_store\<lparr>autoflush := False\<rparr>"

definition api_two_categories :: env where
  "api_two_categories =
     \<lparr>http_get = (\<lambda>url. if url = ''https://fakestoreapi.com/products/categories''
                          then Answers 200 (JArr [JStr ''electronics'', JStr ''jewelery''])
                          else Fails ConnectionError),
      py_repr = (\<lambda>v. [])\<rparr>"

section \<open>The text of an integer\<close>

lemma digit_value_digit_char: "d < 10 \<Longrightarrow> digit_value (digit_char d) = d"
proof -
  assume "d < 10"
  then have "d = 0 \<or> d = 1 \<or> d = 2 \<or> d = 3 \<or> d = 4 \<or> d = 5 \<or> d = 6 \<or> d = 7 \<or> d = 8 \<or> d = 9"
    by arith
  then show ?thesis
    by (elim disjE) (simp_all add: digit_value_def digit_char_def)
qed

lemma read_decimal_digits10: "read_decimal (digits10 n) = n"
proof (induction n rule: digits10.induct)
  case (1 n)
  have d: "digits10 n = (if n < 10 then [digit_char n] else digits10 (n div 10) @ [digit_char (n mod 10)])"
    by (rule digits10.simps)
  show ?case
  proof (cases "n < 10")
    case True
    then have "digits10 n = [digit_char n]"
      using d by (simp del: digits10.simps)
    with True show ?thesis
      by (simp del: digits10.simps add: read_decimal_def digit_value_digit_char)
  next
    case False
    with "1.IH" have ih: "read_decimal (digits10 (n div 10)) = n div 10"
      by (simp del: digits10.simps)
    have "digits10 n = digits10 (n div 10) @ [digit_char (n mod 10)]"
      using d False by (simp del: digits10.simps)
    then have "read_decimal (digits10 n) =
        10 * read_decimal (digits10 (n div 10)) + digit_value (digit_char (n mod 10))"
      by (simp del: digits10.simps add: read_decimal_def)
    also have "\<dots> = 10 * (n div 10) + n mod 10"
      by (simp del: digits10.simps add: ih digit_value_digit_char)
    finally show ?thesis by (simp del: digits10.simps)
  qed
qed

lemma str_int_reads_back: "0 \<le> i \<Longrightarrow> int (read_decimal (str_int i)) = i"
  by (simp del: digits10.simps add: str_int_def read_decimal_digits10)

section \<open>Facts about the rows\<close>

lemma find_categoria_None: "find_categoria name es = None \<longleftrightarrow> name \<notin> set (categoria_names es)"
  by (induction name es rule: find_categoria.induct) auto

lemma find_producto_None: "find_producto name es = None \<longleftrightarrow> name \<notin> set (producto_names es)"
  by (induction name es rule: find_producto.induct) auto

lemma find_producto_append [simp]:
  "find_producto name (es @ fs) =
     (case find_producto name es of None \<Rightarrow> find_producto name fs | Some x \<Rightarrow> Some x)"
  by (induction name es rule: find_producto.induct) auto

lemma find_categoria_append [simp]:
  "find_categoria name (es @ fs) =
     (case find_categoria name es of None \<Rightarrow> find_categoria name fs | Some x \<Rightarrow> Some x)"
  by (induction name es rule: find_categoria.induct) auto

lemma find_categoria_Some_id:
  "find_categoria name es = Some x \<Longrightarrow> id_categoria x \<in> set (categoria_ids es)"
  by (induction name es rule: find_categoria.induct) (auto split: if_splits)

lemma categoria_names_append [simp]:
  "categoria_names (xs @ ys) = categoria_names xs @ categoria_names ys"
  by (induction xs rule: categoria_names.induct) auto

lemma producto_names_append [simp]:
  "producto_names (xs @ ys) = producto_names xs @ producto_names ys"
  by (induction xs rule: producto_names.induct) auto

lemma categoria_ids_append [simp]:
  "categoria_ids (xs @ ys) = categoria_ids xs @ categoria_ids ys"
  by (induction xs rule: categoria_ids.induct) auto

lemma variante_rows_append [simp]:
  "variante_rows (xs @ ys) = variante_rows xs @ variante_rows ys"
  by (induction xs rule: variante_rows.induct) auto

lemma categoria_names_map [simp]: "categoria_names (map Categoria cs) = map nombre cs"
  by (induction cs) auto

lemma producto_names_map_Categoria [simp]: "producto_names (map Categoria cs) = []"
  by (induction cs) auto

lemma last_categoria_append [simp]:
  "last_categoria (es @ fs) = (case last_categoria fs of None \<Rightarrow> last_categoria es | Some c \<Rightarrow> Some c)"
  by (induction es rule: last_categoria.induct) (auto split: option.splits)

lemma last_producto_append [simp]:
  "last_producto (es @ fs) = (case last_producto fs of None \<Rightarrow> last_producto es | Some p \<Rightarrow> Some p)"
  by (induction es rule: last_producto.induct) (auto split: option.splits)

section \<open>Running the computations\<close>

lemma ret_run [simp]: "ret x s = (Inr x, s)"
  by (simp add: ret_def)

lemma throw_run [simp]: "throw e s = (Inl e, s)"
  by (simp add: throw_def)

lemma lift_run [simp]: "lift r s = (r, s)"
  by (simp add: lift_def)

lemma logger_run [simp]: "logger r s = (Inr (), s\<lparr>logs := logs s @ [r]\<rparr>)"
  by (simp add: logger_def)

lemma fetch_run:
  "fetch ev url site dflt s =
     (Inr (payload ev url dflt),
      s\<lparr>calls := calls s @ [url],
        logs := logs s @ (case signals ev url of None \<Rightarrow> [] | Some e \<Rightarrow> [LogError site e])\<rparr>)"
  by (auto simp: fetch_def try_except_def andthen_def requests_get_def raise_for_status_def
      payload_def signals_def split: response.splits)

lemma flush_one_fields [simp]:
  "pending (flush_one e s) = pending s"
  "autoflush (flush_one e s) = autoflush s"
  "commits (flush_one e s) = commits s"
  "calls (flush_one e s) = calls s"
  "logs (flush_one e s) = logs s"
  by (cases e; simp)+

lemma fold_flush_one_fields [simp]:
  "pending (fold flush_one es s) = pending s"
  "autoflush (fold flush_one es s) = autoflush s"
  "commits (fold flush_one es s) = commits s"
  "calls (fold flush_one es s) = calls s"
  "logs (fold flush_one es s) = logs s"
  by (induction es arbitrary: s; simp)+

lemma flushed_fields [simp]:
  "pending (flushed s) = []"
  "autoflush (flushed s) = autoflush s"
  "commits (flushed s) = commits s"
  "calls (flushed s) = calls s"
  "logs (flushed s) = logs s"
  by (simp_all add: flushed_def)

lemma flushed_idle: "pending s = [] \<Longrightarrow> flushed s = s"
  by (simp add: flushed_def)

lemma flushed_flushed [simp]: "flushed (flushed s) = flushed s"
  by (simp add: flushed_idle)

lemma flush_one_upd:
  "flush_one e (s\<lparr>calls := c\<rparr>) = (flush_one e s)\<lparr>calls := c\<rparr>"
  "flush_one e (s\<lparr>logs := l\<rparr>) = (flush_one e s)\<lparr>logs := l\<rparr>"
  "flush_one e (s\<lparr>commits := k\<rparr>) = (flush_one e s)\<lparr>commits := k\<rparr>"
  "flush_one e (s\<lparr>pending := p\<rparr>) = (flush_one e s)\<lparr>pending := p\<rparr>"
  by (cases e; simp)+

lemma fold_flush_one_upd:
  "fold flush_one es (s\<lparr>calls := c\<rparr>) = (fold flush_one es s)\<lparr>calls := c\<rparr>"
  "fold flush_one es (s\<lparr>logs := l\<rparr>) = (fold flush_one es s)\<lparr>logs := l\<rparr>"
  "fold flush_one es (s\<lparr>commits := k\<rparr>) = (fold flush_one es s)\<lparr>commits := k\<rparr>"
  "fold flush_one es (s\<lparr>pending := p\<rparr>) = (fold flush_one es s)\<lparr>pending := p\<rparr>"
  by (induction es arbitrary: s; simp add: flush_one_upd)+

lemma flushed_upd [simp]:
  "flushed (s\<lparr>calls := c\<rparr>) = (flushed s)\<lparr>calls := c\<rparr>"
  "flushed (s\<lparr>logs := l\<rparr>) = (flushed s)\<lparr>logs := l\<rparr>"
  "flushed (s\<lparr>commits := k\<rparr>) = (flushed s)\<lparr>commits := k\<rparr>"
  by (simp_all add: flushed_def fold_flush_one_upd)

lemma flushed_add [simp]: "flushed (s\<lparr>pending := pending s @ [e]\<rparr>) = flush_one e (flushed s)"
  by (simp add: flushed_def fold_flush_one_upd flush_one_upd)

lemma flushed_one: "pending s = [] \<Longrightarrow> flushed (s\<lparr>pending := [e]\<rparr>) = flush_one e s"
  using flushed_add [of s e] by (simp add: flushed_idle)

lemma flush_one_rows [simp]:
  "rows (flush_one (Categoria c) s) = rows s @ [Categoria (c\<lparr>id_categoria := Some (next_id_categoria s)\<rparr>)]"
  "rows (flush_one (Producto p) s) = rows s @ [Producto (p\<lparr>id_producto := Some (next_id_producto s)\<rparr>)]"
  "rows (flush_one (ProductoVariante v) s) =
     rows s @ [ProductoVariante (v\<lparr>id_variante := Some (next_id_variante s)\<rparr>)]"
  by simp_all

lemma flush_one_next_ids [simp]:
  "next_id_producto (flush_one (Categoria c) s) = next_id_producto s"
  "next_id_variante (flush_one (Categoria c) s) = next_id_variante s"
  "next_id_variante (flush_one (Producto p) s) = next_id_variante s"
  by simp_all

lemma flush_one_prefix: "\<exists>r. rows (flush_one e s) = rows s @ [r]"
  by (cases e) simp_all

declare flush_one.simps [simp del]

lemma fold_flush_one_prefix: "\<exists>extra. rows (fold flush_one es s) = rows s @ extra"
proof (induction es arbitrary: s)
  case Nil
  show ?case by simp
next
  case (Cons e es)
  from flush_one_prefix [of e s] obtain r where r: "rows (flush_one e s) = rows s @ [r]" by blast
  from Cons.IH [of "flush_one e s"] obtain extra where
    "rows (fold flush_one es (flush_one e s)) = rows (flush_one e s) @ extra" by blast
  with r show ?case by simp
qed

lemma flushed_prefix: "\<exists>extra. rows (flushed s) = rows s @ extra"
  using fold_flush_one_prefix [of "pending s" s] by (simp add: flushed_def)

lemma flushed_flush_one [simp]: "flushed (flush_one e (flushed s)) = flush_one e (flushed s)"
  by (simp add: flushed_idle)

lemma flushed_pending_one [simp]:
  "flushed ((flush_one d (flushed s))\<lparr>pending := [e]\<rparr>) = flush_one e (flush_one d (flushed s))"
  by (simp add: flushed_one)

text \<open>What a query finds.\<close>

lemma before_query_fields [simp]:
  "autoflush (before_query s) = autoflush s"
  "commits (before_query s) = commits s"
  "calls (before_query s) = calls s"
  "logs (before_query s) = logs s"
  by (simp_all add: before_query_def)

lemma before_query_again [simp]: "before_query (before_query s) = before_query s"
  by (simp add: before_query_def)

lemma before_query_idle: "pending s = [] \<Longrightarrow> before_query s = s"
  by (simp add: before_query_def flushed_idle)

lemma before_query_autoflush: "autoflush s \<Longrightarrow> before_query s = flushed s"
  by (simp add: before_query_def)

lemma flushed_before_query [simp]: "flushed (before_query s) = flushed s"
  by (simp add: before_query_def)

lemma before_query_flush_one [simp]:
  "before_query (flush_one e (flushed s)) = flush_one e (flushed s)"
  by (simp add: before_query_idle)

lemma before_query_upd [simp]:
  "before_query (s\<lparr>calls := c\<rparr>) = (before_query s)\<lparr>calls := c\<rparr>"
  "before_query (s\<lparr>logs := l\<rparr>) = (before_query s)\<lparr>logs := l\<rparr>"
  by (simp_all add: before_query_def)

lemma before_query_prefix: "\<exists>extra. rows (flushed s) = rows (before_query s) @ extra"
  using flushed_prefix [of s] by (simp add: before_query_def)

lemma before_query_seen: "\<exists>extra. rows (before_query s) = rows s @ extra"
  using flushed_prefix [of s] by (simp add: before_query_def)

lemma db_add_run [simp]: "db_add e s = (Inr (), s\<lparr>pending := pending s @ [e]\<rparr>)"
  by (simp add: db_add_def)

lemma db_flush_run [simp]: "db_flush s = (Inr (), flushed s)"
  by (simp add: db_flush_def)

lemma db_commit_run [simp]: "db_commit s = (Inr (), (flushed s)\<lparr>commits := Suc (commits s)\<rparr>)"
  by (simp add: db_commit_def)

lemma query_categoria_run [simp]:
  "query_categoria name s = (Inr (find_categoria name (rows (before_query s))), before_query s)"
  by (simp add: query_categoria_def)

lemma query_producto_run [simp]:
  "query_producto name s = (Inr (find_producto name (rows (before_query s))), before_query s)"
  by (simp add: query_producto_def)

section \<open>The fetch layer contains its errors\<close>

text \<open>
  Claim C7. Whenever the GET of a fetch operation signals a transport failure or an error
  status, the operation records the error in the log and returns its default (the empty
  list for the three list operations, \<^verbatim>\<open>None\<close> for \<open>get_product_by_id\<close>), and nothing
  is raised. When \<open>get_categories\<close> fails this way, \<open>sync_categories_to_db\<close> returns 0
  and writes no row of its own: the store is the one it found, flushed and committed.
\<close>

theorem fetch_errors_never_escape:
  "(signals ev (base_url @ ''/products/categories'') = Some e \<longrightarrow>
      get_categories ev s =
        (Inr (JArr []),
         s\<lparr>calls := calls s @ [base_url @ ''/products/categories''],
           logs := logs s @ [LogError AtGetCategories e]\<rparr>)) \<and>
   (signals ev (base_url @ ''/products?limit='' @ str_int limit) = Some e \<longrightarrow>
      get_products ev limit s =
        (Inr (JArr []),
         s\<lparr>calls := calls s @ [base_url @ ''/products?limit='' @ str_int limit],
           logs := logs s @ [LogError AtGetProducts e]\<rparr>)) \<and>
   (signals ev (base_url @ ''/products/'' @ str_int product_id) = Some e \<longrightarrow>
      get_product_by_id ev product_id s =
        (Inr JNull,
         s\<lparr>calls := calls s @ [base_url @ ''/products/'' @ str_int product_id],
           logs := logs s @ [LogError (AtGetProductById product_id) e]\<rparr>)) \<and>
   (signals ev (base_url @ ''/products/category/'' @ format_value ev category) = Some e \<longrightarrow>
      get_products_by_category ev category s =
        (Inr (JArr []),
         s\<lparr>calls := calls s @ [base_url @ ''/products/category/'' @ format_value ev category],
           logs := logs s @ [LogError (AtGetProductsByCategory category) e]\<rparr>)) \<and>
   (signals ev (base_url @ ''/products/categories'') = Some e \<longrightarrow>
      sync_categories_to_db ev s =
        (Inr 0,
         (flushed s)\<lparr>commits := Suc (commits s),
           calls := calls s @ [base_url @ ''/products/categories''],
           logs := logs s @ [LogError AtGetCategories e, LogInfoCategorias 0]\<rparr>))"
proof -
  have p: "signals ev url = Some e \<Longrightarrow> payload ev url dflt = dflt" for url dflt
    by (auto simp: signals_def payload_def split: response.splits if_splits)
  show ?thesis
    by (simp add: get_categories_def get_products_def get_product_by_id_def
        get_products_by_category_def sync_categories_to_db_def fetch_run andthen_def p)
qed

theorem fetch_errors_never_escape_witness:
  "get_categories api_down empty_store =
     (Inr (JArr []),
      empty_store\<lparr>calls := [''https://fakestoreapi.com/products/categories''],
        logs := [LogError AtGetCategories (RequestFailed Timeout)]\<rparr>) \<and>
   get_products api_down 20 empty_store =
     (Inr (JArr []),
      empty_store\<lparr>calls := [''https://fakestoreapi.com/products?limit=20''],
        logs := [LogError AtGetProducts (RequestFailed Timeout)]\<rparr>) \<and>
   get_product_by_id api_down 5 empty_store =
     (Inr JNull,
      empty_store\<lparr>calls := [''https://fakestoreapi.com/products/5''],
        logs := [LogError (AtGetProductById 5) (RequestFailed Timeout)]\<rparr>) \<and>
   get_products_by_category api_down (JStr ''electronics'') empty_store =
     (Inr (JArr []),
      empty_store\<lparr>calls := [''https://fakestoreapi.com/products/category/electronics''],
        logs := [LogError (AtGetProductsByCategory (JStr ''electronics'')) (RequestFailed Timeout)]\<rparr>) \<and>
   sync_categories_to_db api_down empty_store =
     (Inr 0,
      empty_store\<lparr>commits := 1,
        calls := [''https://fakestoreapi.com/products/categories''],
        logs := [LogError AtGetCategories (RequestFailed Timeout), LogInfoCategorias 0]\<rparr>)"
  using fetch_errors_never_escape [of api_down "RequestFailed Timeout" empty_store 20 5 "JStr ''electronics''"]
  by (simp add: signals_def api_down_def empty_store_def base_url_def flushed_def str_int_def digit_char_def)

section \<open>The loop over the category names\<close>

lemma sync_categoria_run:
  "sync_categoria (JStr n) c s =
     (case find_categoria (str_title n) (rows (before_query s)) of
        None \<Rightarrow>
          (Inr (c + 1),
           (before_query s)\<lparr>pending := pending (before_query s) @
              [Categoria \<lparr>id_categoria = None, nombre = str_title n\<rparr>]\<rparr>)
      | Some x \<Rightarrow> (Inr c, before_query s))"
  by (simp add: sync_categoria_def andthen_def split: option.splits)

lemma sync_categorias_loop:
  assumes "autoflush s"
  shows "\<exists>cs s'. for_each (map JStr names) sync_categoria c s = (Inr (c + int (length cs)), s') \<and>
     rows (flushed s') = rows (flushed s) @ map Categoria cs \<and>
     distinct (map nombre cs) \<and>
     set (map nombre cs) = str_title ` set names - set (categoria_names (rows (flushed s))) \<and>
     autoflush s' \<and> calls s' = calls s \<and> logs s' = logs s \<and> commits s' = commits s"
  using assms
proof (induction names arbitrary: c s)
  case Nil
  then show ?case by (intro exI [of _ "[]"]) simp
next
  case (Cons n ns)
  let ?old = "categoria_names (rows (flushed s))"
  from Cons.prems have bq: "before_query s = flushed s"
    by (rule before_query_autoflush)
  show ?case
  proof (cases "find_categoria (str_title n) (rows (flushed s))")
    case (Some x)
    then have step: "sync_categoria (JStr n) c s = (Inr c, flushed s)"
      by (simp add: sync_categoria_run bq)
    from Some have old: "str_title n \<in> set ?old"
      using find_categoria_None [of "str_title n" "rows (flushed s)"] by simp
    have "autoflush (flushed s)" using Cons.prems by simp
    from Cons.IH [OF this, of c] obtain cs s' where
      "for_each (map JStr ns) sync_categoria c (flushed s) = (Inr (c + int (length cs)), s')"
      "rows (flushed s') = rows (flushed s) @ map Categoria cs"
      "distinct (map nombre cs)"
      "set (map nombre cs) = str_title ` set ns - set ?old"
      "autoflush s'" "calls s' = calls s" "logs s' = logs s" "commits s' = commits s"
      by auto
    with step old show ?thesis
      by (intro exI [of _ cs] exI [of _ s']) (auto simp: andthen_def)
  next
    case None
    let ?c0 = "\<lparr>id_categoria = None, nombre = str_title n\<rparr>"
    let ?c1 = "\<lparr>id_categoria = Some (next_id_categoria (flushed s)), nombre = str_title n\<rparr>"
    let ?s1 = "(flushed s)\<lparr>pending := [Categoria ?c0]\<rparr>"
    from None have step: "sync_categoria (JStr n) c s = (Inr (c + 1), ?s1)"
      by (simp add: sync_categoria_run bq)
    from None have new: "str_title n \<notin> set ?old"
      by (simp add: find_categoria_None)
    have f1: "flushed ?s1 = flush_one (Categoria ?c0) (flushed s)"
      by (rule flushed_one) simp
    then have r1: "rows (flushed ?s1) = rows (flushed s) @ [Categoria ?c1]"
      by simp
    have "autoflush ?s1" using Cons.prems by simp
    from Cons.IH [OF this, of "c + 1"] obtain cs s' where ih:
      "for_each (map JStr ns) sync_categoria (c + 1) ?s1 = (Inr (c + 1 + int (length cs)), s')"
      "rows (flushed s') = rows (flushed ?s1) @ map Categoria cs"
      "distinct (map nombre cs)"
      "set (map nombre cs) = str_title ` set ns - set (categoria_names (rows (flushed ?s1)))"
      "autoflush s'" "calls s' = calls ?s1" "logs s' = logs ?s1" "commits s' = commits ?s1"
      by auto
    show ?thesis
    proof (intro exI [of _ "?c1 # cs"] exI [of _ s'] conjI)
      show "for_each (map JStr (n # ns)) sync_categoria c s = (Inr (c + int (length (?c1 # cs))), s')"
        using step ih(1) by (simp add: andthen_def)
      show "rows (flushed s') = rows (flushed s) @ map Categoria (?c1 # cs)"
        using ih(2) r1 by simp
      show "distinct (map nombre (?c1 # cs))"
        using ih(3,4) r1 by auto
      show "set (map nombre (?c1 # cs)) = str_title ` set (n # ns) - set ?old"
        using ih(4) r1 new by auto
      show "autoflush s'" by (rule ih(5))
      show "calls s' = calls s" "logs s' = logs s" "commits s' = commits s"
        using ih(6,7,8) by simp_all
    qed
  qed
qed

text \<open>Without autoflush the queries of the loop see the rows of its start only.\<close>

lemma sync_categorias_loop_plain:
  assumes "\<not> autoflush s"
  shows "for_each (map JStr names) sync_categoria c s =
     (Inr (c + int (length (filter (\<lambda>n. n \<notin> set (categoria_names (rows s))) (map str_title names)))),
      s\<lparr>pending := pending s @
          map (\<lambda>n. Categoria \<lparr>id_categoria = None, nombre = n\<rparr>)
            (filter (\<lambda>n. n \<notin> set (categoria_names (rows s))) (map str_title names))\<rparr>)"
  using assms
proof (induction names arbitrary: c s)
  case Nil
  show ?case by simp
next
  case (Cons n ns)
  from Cons.prems have bq: "before_query s = s"
    by (simp add: before_query_def)
  show ?case
  proof (cases "find_categoria (str_title n) (rows s)")
    case None
    let ?s1 = "s\<lparr>pending := pending s @ [Categoria \<lparr>id_categoria = None, nombre = str_title n\<rparr>]\<rparr>"
    from None have step: "sync_categoria (JStr n) c s = (Inr (c + 1), ?s1)"
      by (simp add: sync_categoria_run bq)
    from None have new: "str_title n \<notin> set (categoria_names (rows s))"
      by (simp add: find_categoria_None)
    have "\<not> autoflush ?s1" using Cons.prems by simp
    from Cons.IH [OF this, of "c + 1"] step new show ?thesis
      by (simp add: andthen_def)
  next
    case (Some x)
    then have step: "sync_categoria (JStr n) c s = (Inr c, s)"
      by (simp add: sync_categoria_run bq)
    from Some have old: "str_title n \<in> set (categoria_names (rows s))"
      using find_categoria_None [of "str_title n" "rows s"] by simp
    from Cons.IH [OF Cons.prems, of c] step old show ?thesis
      by (simp add: andthen_def)
  qed
qed

lemma fold_flush_categorias:
  "\<exists>cs. rows (fold flush_one (map (\<lambda>n. Categoria \<lparr>id_categoria = None, nombre = n\<rparr>) ns) s) =
     rows s @ map Categoria cs \<and> map nombre cs = ns"
proof (induction ns arbitrary: s)
  case Nil
  show ?case by simp
next
  case (Cons n ns)
  let ?s1 = "flush_one (Categoria \<lparr>id_categoria = None, nombre = n\<rparr>) s"
  let ?c = "\<lparr>id_categoria = Some (next_id_categoria s), nombre = n\<rparr>"
  from Cons.IH [of ?s1] obtain cs where cs:
    "rows (fold flush_one (map (\<lambda>n. Categoria \<lparr>id_categoria = None, nombre = n\<rparr>) ns) ?s1) =
       rows ?s1 @ map Categoria cs" "map nombre cs = ns"
    by blast
  show ?case
    by (rule exI [of _ "?c # cs"]) (simp add: cs)
qed

lemma sync_categories_run:
  assumes "payload ev (base_url @ ''/products/categories'') (JArr []) = JArr (map JStr names)"
    and "autoflush s \<or> pending s = [] \<and> distinct (map str_title names)"
  shows "\<exists>cs s'. sync_categories_to_db ev s = (Inr (int (length cs)), s') \<and>
     rows s' = rows (flushed s) @ map Categoria cs \<and> pending s' = [] \<and>
     autoflush s' = autoflush s \<and>
     distinct (map nombre cs) \<and>
     set (map nombre cs) = str_title ` set names - set (categoria_names (rows (flushed s)))"
proof -
  let ?url = "base_url @ ''/products/categories''"
  let ?logged = "case signals ev ?url of None \<Rightarrow> [] | Some e \<Rightarrow> [LogError AtGetCategories e]"
  let ?s1 = "s\<lparr>calls := calls s @ [?url], logs := logs s @ ?logged\<rparr>"
  have g: "get_categories ev s = (Inr (JArr (map JStr names)), ?s1)"
    using assms(1) by (simp add: get_categories_def fetch_run)
  show ?thesis
  proof (cases "autoflush s")
    case True
    then have "autoflush ?s1" by simp
    from sync_categorias_loop [OF this, of names 0] obtain cs s2 where l:
      "for_each (map JStr names) sync_categoria 0 ?s1 = (Inr (int (length cs)), s2)"
      "rows (flushed s2) = rows (flushed ?s1) @ map Categoria cs"
      "distinct (map nombre cs)"
      "set (map nombre cs) = str_title ` set names - set (categoria_names (rows (flushed ?s1)))"
      "autoflush s2"
      by auto
    show ?thesis
      using g l True
      by (intro exI [of _ cs]) (simp add: sync_categories_to_db_def andthen_def)
  next
    case False
    with assms(2) have idle: "pending s = []" and dist: "distinct (map str_title names)"
      by simp_all
    let ?new = "filter (\<lambda>n. n \<notin> set (categoria_names (rows s))) (map str_title names)"
    let ?mk = "\<lambda>n. Categoria \<lparr>id_categoria = None, nombre = n\<rparr>"
    let ?s2 = "?s1\<lparr>pending := map ?mk ?new\<rparr>"
    from False have "\<not> autoflush ?s1" by simp
    from sync_categorias_loop_plain [OF this, of names 0]
    have l: "for_each (map JStr names) sync_categoria 0 ?s1 = (Inr (int (length ?new)), ?s2)"
      by (simp add: idle)
    from fold_flush_categorias [of ?new s] obtain cs where cs:
      "rows (fold flush_one (map ?mk ?new) s) = rows s @ map Categoria cs" "map nombre cs = ?new"
      by blast
    have r: "rows (flushed ?s2) = rows s @ map Categoria cs"
      by (simp add: flushed_def fold_flush_one_upd cs(1))
    have len: "length cs = length ?new"
      using cs(2) by (metis length_map)
    have fs: "flushed s = s"
      using idle by (rule flushed_idle)
    show ?thesis
    proof (intro exI [of _ cs] exI [of _ "(flushed ?s2)\<lparr>commits := Suc (commits s)\<rparr>
        \<lparr>logs := logs s @ ?logged @ [LogInfoCategorias (int (length ?new))]\<rparr>"] conjI)
      show "sync_categories_to_db ev s = (Inr (int (length cs)),
          (flushed ?s2)\<lparr>commits := Suc (commits s)\<rparr>
            \<lparr>logs := logs s @ ?logged @ [LogInfoCategorias (int (length ?new))]\<rparr>)"
        using g l by (simp add: sync_categories_to_db_def andthen_def len)
      show "rows ((flushed ?s2)\<lparr>commits := Suc (commits s)\<rparr>
            \<lparr>logs := logs s @ ?logged @ [LogInfoCategorias (int (length ?new))]\<rparr>) =
          rows (flushed s) @ map Categoria cs"
        using r by (simp add: fs)
      show "distinct (map nombre cs)"
        using dist by (simp add: cs(2))
      show "set (map nombre cs) = str_title ` set names - set (categoria_names (rows (flushed s)))"
        by (auto simp: cs(2) fs)
    qed (simp_all add: False)
  qed
qed

section \<open>Categories are created once per new name\<close>

text \<open>
  Claim C4 says that for every fetched list and every store state one category is created
  per distinct title-cased name. The loop of \<open>sync_categories_to_db\<close> adds its categories
  without flushing (lines 66-74), so on a session that does not autoflush its queries do
  not see the categories added earlier in the run: for the names \<^verbatim>\<open>electronics\<close>,
  \<^verbatim>\<open>jewelery\<close>, \<^verbatim>\<open>ELECTRONICS\<close> it returns 3 and writes \<^verbatim>\<open>Electronics\<close> twice.
\<close>

theorem sync_categories_repeats_name_without_autoflush_counterexample:
  "fst (sync_categories_to_db api_categories plain_store) = Inr 3 \<and>
   categoria_names (rows (snd (sync_categories_to_db api_categories plain_store))) =
     [''Electronics'', ''Jewelery'', ''Electronics'']"
  by code_simp

text \<open>
  Claim C4, amended. On a session that autoflushes, or on one that holds no pending object
  when the title-cased names of the fetched list are distinct, \<open>sync_categories_to_db\<close>
  returns normally; the rows it writes are category rows only, one for each distinct
  title-cased name that the store did not hold, and the count it returns is their number.
  Run again on the store it left, with the same fetched list, it returns 0 and writes no row.
\<close>

theorem sync_categories_once_per_new_name:
  assumes "payload ev (base_url @ ''/products/categories'') (JArr []) = JArr (map JStr names)"
    and "autoflush s \<or> pending s = [] \<and> distinct (map str_title names)"
  shows "\<exists>cs s' s''.
     sync_categories_to_db ev s = (Inr (int (length cs)), s') \<and>
     rows s' = rows (flushed s) @ map Categoria cs \<and>
     distinct (map nombre cs) \<and>
     set (map nombre cs) = str_title ` set names - set (categoria_names (rows (flushed s))) \<and>
     sync_categories_to_db ev s' = (Inr 0, s'') \<and>
     rows s'' = rows s'"
proof -
  from sync_categories_run [OF assms] obtain cs s' where first:
    "sync_categories_to_db ev s = (Inr (int (length cs)), s')"
    "rows s' = rows (flushed s) @ map Categoria cs" "pending s' = []"
    "autoflush s' = autoflush s"
    "distinct (map nombre cs)"
    "set (map nombre cs) = str_title ` set names - set (categoria_names (rows (flushed s)))"
    by blast
  have again: "autoflush s' \<or> pending s' = [] \<and> distinct (map str_title names)"
    using assms(2) first(3,4) by auto
  from sync_categories_run [OF assms(1) again] obtain cs2 s'' where second:
    "sync_categories_to_db ev s' = (Inr (int (length cs2)), s'')"
    "rows s'' = rows (flushed s') @ map Categoria cs2"
    "set (map nombre cs2) = str_title ` set names - set (categoria_names (rows (flushed s')))"
    by blast
  have fs: "flushed s' = s'"
    using first(3) by (rule flushed_idle)
  have "set (map nombre cs2) = {}"
    using second(3) first(2,6) by (auto simp: fs)
  then have "cs2 = []" by simp
  with first second fs show ?thesis
    by (intro exI [of _ cs] exI [of _ s'] exI [of _ s'']) simp
qed

theorem sync_categories_once_per_new_name_witness:
  "(\<exists>cs s' s''.
     sync_categories_to_db api_categories empty_store = (Inr (int (length cs)), s') \<and>
     rows s' = map Categoria cs \<and>
     distinct (map nombre cs) \<and>
     set (map nombre cs) = {''Electronics'', ''Jewelery''} \<and>
     sync_categories_to_db api_categories s' = (Inr 0, s'') \<and>
     rows s'' = rows s') \<and>
   (\<exists>cs s' s''.
     sync_categories_to_db api_two_categories plain_store = (Inr (int (length cs)), s') \<and>
     rows s' = map Categoria cs \<and>
     distinct (map nombre cs) \<and>
     set (map nombre cs) = {''Electronics'', ''Jewelery''} \<and>
     sync_categories_to_db api_two_categories s' = (Inr 0, s'') \<and>
     rows s'' = rows s')"
proof -
  have p: "payload api_categories (base_url @ ''/products/categories'') (JArr []) =
      JArr (map JStr [''electronics'', ''jewelery'', ''ELECTRONICS''])"
    "payload api_two_categories (base_url @ ''/products/categories'') (JArr []) =
      JArr (map JStr [''electronics'', ''jewelery''])"
    by (simp_all add: payload_def api_categories_def api_two_categories_def base_url_def)
  have c: "str_title ''electronics'' = ''Electronics''" "str_title ''jewelery'' = ''Jewelery''"
    "str_title ''ELECTRONICS'' = ''Electronics''"
    by code_simp+
  have e: "rows (flushed empty_store) = []" "rows (flushed plain_store) = []"
    by (simp_all add: flushed_def empty_store_def plain_store_def)
  have h1: "autoflush empty_store \<or>
      pending empty_store = [] \<and> distinct (map str_title [''electronics'', ''jewelery'', ''ELECTRONICS''])"
    by (simp add: empty_store_def)
  have h2: "autoflush plain_store \<or>
      pending plain_store = [] \<and> distinct (map str_title [''electronics'', ''jewelery''])"
    by (simp add: plain_store_def empty_store_def c)
  show ?thesis
    using sync_categories_once_per_new_name [OF p(1) h1] sync_categories_once_per_new_name [OF p(2) h2]
    unfolding e by (simp add: c insert_commute)
qed

section \<open>The loop over the product records\<close>

lemma product_record_fields:
  assumes "product_record p"
  shows "getitem p ''category'' = Inr (JStr (category_of p))"
    and "getitem p ''title'' = Inr (field p ''title'')"
    and "getitem p ''id'' = Inr (field p ''id'')"
    and "getitem p ''price'' = Inr (field p ''price'')"
    and "getitem p ''image'' = Inr (field p ''image'')"
  using assms
  by (auto simp: product_record_def has_key_def field_def category_of_def
      split: sum.splits json.splits)

lemma refs_ok_append: "refs_ok b (xs @ ys) = (refs_ok b xs \<and> refs_ok (b @ xs) ys)"
  by (induction b xs rule: refs_ok.induct) auto

lemma paired_append: "paired ev ps xs \<Longrightarrow> paired ev ps ys \<Longrightarrow> paired ev ps (xs @ ys)"
  by (induction ev ps xs rule: paired.induct) auto

lemma paired_first: "paired ev [p] es \<Longrightarrow> paired ev (p # ps) es"
  by (induction ev "[p]" es rule: paired.induct) (auto split: option.splits if_splits)

lemma paired_later:
  "paired ev ps es \<Longrightarrow> field p ''title'' \<notin> set (producto_names es) \<Longrightarrow> paired ev (p # ps) es"
  by (induction ev ps es rule: paired.induct) (auto split: option.splits)

lemma paired_counts: "paired ev ps es \<Longrightarrow> length (variante_rows es) = length (producto_names es)"
  by (induction ev ps es rule: paired.induct) auto


lemma seen_names:
  "set (producto_names (rows s)) \<subseteq> set (producto_names (rows (before_query s)))"
  "set (producto_names (rows (before_query s))) \<subseteq> set (producto_names (rows (flushed s)))"
  "set (categoria_ids (rows (before_query s))) \<subseteq> set (categoria_ids (rows (flushed s)))"
proof -
  from before_query_seen [of s] obtain e1 where "rows (before_query s) = rows s @ e1" by blast
  then show "set (producto_names (rows s)) \<subseteq> set (producto_names (rows (before_query s)))"
    by simp
  from before_query_prefix [of s] obtain e2 where e2: "rows (flushed s) = rows (before_query s) @ e2"
    by blast
  then show "set (producto_names (rows (before_query s))) \<subseteq> set (producto_names (rows (flushed s)))"
    by simp
  from e2 show "set (categoria_ids (rows (before_query s))) \<subseteq> set (categoria_ids (rows (flushed s)))"
    by simp
qed

lemma sync_product_run:
  assumes "product_record p"
  shows "sync_product ev p c s =
    (let v = before_query s;
         s1 = flushed s;
         cname = str_title (category_of p);
         title = field p ''title'';
         cat = Categoria \<lparr>id_categoria = None, nombre = cname\<rparr>;
         var = ProductoVariante
                 \<lparr>id_variante = None, var_id_producto = Some (next_id_producto s1),
                  sku = ''API-'' @ format_value ev (field p ''id''), talla = ''M'', color = ''N/A'',
                  precio = field p ''price'', image_url = field p ''image''\<rparr>
     in case find_categoria cname (rows v) of
          Some x \<Rightarrow>
            (case find_producto title (rows v) of
               Some y \<Rightarrow> (Inr c, v)
             | None \<Rightarrow>
                 (Inr (c + 1),
                  (flush_one (Producto \<lparr>id_producto = None, prod_nombre = title,
                                       prod_id_categoria = id_categoria x, marca = ''API Externa''\<rparr>) s1)
                  \<lparr>pending := [var]\<rparr>))
        | None \<Rightarrow>
            (case find_producto title (rows s1) of
               Some y \<Rightarrow> (Inr c, flush_one cat s1)
             | None \<Rightarrow>
                 (Inr (c + 1),
                  (flush_one (Producto \<lparr>id_producto = None, prod_nombre = title,
                                       prod_id_categoria = Some (next_id_categoria s1),
                                       marca = ''API Externa''\<rparr>) (flush_one cat s1))
                  \<lparr>pending := [var]\<rparr>)))"
proof (cases "find_categoria (str_title (category_of p)) (rows (before_query s))")
  case None
  then show ?thesis
    by (simp add: Let_def sync_product_def andthen_def product_record_fields [OF assms]
        newest_categoria_def newest_producto_def attr_id_categoria_def attr_id_producto_def
        split: option.splits)
next
  case (Some x)
  then show ?thesis
    by (simp add: Let_def sync_product_def andthen_def product_record_fields [OF assms]
        newest_categoria_def newest_producto_def attr_id_categoria_def attr_id_producto_def
        split: option.splits)
qed

lemma sync_product_step:
  assumes "product_record p"
  shows "\<exists>new s'. sync_product ev p c s = (Inr (c + int (length (producto_names new))), s') \<and>
     rows (flushed s') = rows (flushed s) @ new \<and>
     (producto_names new = [] \<or> producto_names new = [field p ''title'']) \<and>
     (field p ''title'' \<notin> set (producto_names (rows (flushed s))) \<longrightarrow>
        producto_names new = [field p ''title'']) \<and>
     (field p ''title'' \<in> set (producto_names (rows (before_query s))) \<longrightarrow>
        producto_names new = []) \<and>
     field p ''title'' \<in> set (producto_names (rows (before_query s'))) \<and>
     set (producto_names (rows (before_query s))) \<subseteq> set (producto_names (rows (before_query s'))) \<and>
     paired ev [p] new \<and> refs_ok (rows (flushed s)) new \<and>
     autoflush s' = autoflush s \<and> calls s' = calls s \<and> logs s' = logs s \<and> commits s' = commits s"
proof -
  let ?v = "before_query s"
  let ?s1 = "flushed s"
  let ?cname = "str_title (category_of p)"
  let ?t = "field p ''title''"
  let ?cat = "Categoria \<lparr>id_categoria = None, nombre = ?cname\<rparr>"
  let ?crow = "Categoria \<lparr>id_categoria = Some (next_id_categoria ?s1), nombre = ?cname\<rparr>"
  let ?var = "ProductoVariante
                 \<lparr>id_variante = None, var_id_producto = Some (next_id_producto ?s1),
                  sku = ''API-'' @ format_value ev (field p ''id''), talla = ''M'', color = ''N/A'',
                  precio = field p ''price'', image_url = field p ''image''\<rparr>"
  let ?vrow = "ProductoVariante
                 \<lparr>id_variante = Some (next_id_variante ?s1), var_id_producto = Some (next_id_producto ?s1),
                  sku = ''API-'' @ format_value ev (field p ''id''), talla = ''M'', color = ''N/A'',
                  precio = field p ''price'', image_url = field p ''image''\<rparr>"
  let ?prow = "\<lambda>cid. Producto \<lparr>id_producto = Some (next_id_producto ?s1), prod_nombre = ?t,
                     prod_id_categoria = cid, marca = ''API Externa''\<rparr>"
  note run = sync_product_run [OF assms, of ev c s]
  note seen = seen_names [of s]
  have after: "set (producto_names (rows s')) \<subseteq> set (producto_names (rows (before_query s')))" for s'
    by (rule seen_names(1))
  show ?thesis
  proof (cases "find_categoria ?cname (rows ?v)")
    case None
    let ?s2 = "flush_one ?cat ?s1"
    show ?thesis
    proof (cases "find_producto ?t (rows ?s1)")
      case absent: None
      let ?prod = "Producto \<lparr>id_producto = None, prod_nombre = ?t,
                     prod_id_categoria = Some (next_id_categoria ?s1), marca = ''API Externa''\<rparr>"
      let ?s' = "(flush_one ?prod ?s2)\<lparr>pending := [?var]\<rparr>"
      let ?new = "[?crow, ?prow (Some (next_id_categoria ?s1)), ?vrow]"
      have r: "sync_product ev p c s = (Inr (c + 1), ?s')"
        by (simp add: run None absent Let_def)
      have f: "flushed ?s' = flush_one ?var (flush_one ?prod ?s2)"
        by (rule flushed_one) simp
      have rows: "rows (flushed ?s') = rows ?s1 @ ?new"
        unfolding f by simp
      from absent have notin: "?t \<notin> set (producto_names (rows ?s1))"
        by (simp add: find_producto_None)
      with seen(2) have unseen: "?t \<notin> set (producto_names (rows ?v))"
        by blast
      have now: "?t \<in> set (producto_names (rows ?s'))"
        by simp
      have grow: "set (producto_names (rows ?v)) \<subseteq> set (producto_names (rows ?s'))"
        using seen(2) by auto
      show ?thesis
        using r rows notin unseen now grow after [of ?s']
        by (intro exI [of _ ?new] exI [of _ ?s']) auto
    next
      case (Some y)
      have r: "sync_product ev p c s = (Inr c, ?s2)"
        by (simp add: run None Some Let_def)
      from Some have isin: "?t \<in> set (producto_names (rows ?s1))"
        using find_producto_None [of ?t "rows ?s1"] by simp
      have grow: "set (producto_names (rows ?v)) \<subseteq> set (producto_names (rows ?s2))"
        using seen(2) by auto
      show ?thesis
        using r isin grow
        by (intro exI [of _ "[?crow]"] exI [of _ ?s2]) auto
    qed
  next
    case found: (Some x)
    have cid: "id_categoria x \<in> set (categoria_ids (rows ?s1))"
      using find_categoria_Some_id [OF found] seen(3) by blast
    show ?thesis
    proof (cases "find_producto ?t (rows ?v)")
      case absent: None
      let ?prod = "Producto \<lparr>id_producto = None, prod_nombre = ?t,
                     prod_id_categoria = id_categoria x, marca = ''API Externa''\<rparr>"
      let ?s' = "(flush_one ?prod ?s1)\<lparr>pending := [?var]\<rparr>"
      let ?new = "[?prow (id_categoria x), ?vrow]"
      have r: "sync_product ev p c s = (Inr (c + 1), ?s')"
        by (simp add: run found absent Let_def)
      have f: "flushed ?s' = flush_one ?var (flush_one ?prod ?s1)"
        by (rule flushed_one) simp
      have rows: "rows (flushed ?s') = rows ?s1 @ ?new"
        unfolding f by simp
      from absent have unseen: "?t \<notin> set (producto_names (rows ?v))"
        by (simp add: find_producto_None)
      have now: "?t \<in> set (producto_names (rows ?s'))"
        by simp
      have grow: "set (producto_names (rows ?v)) \<subseteq> set (producto_names (rows ?s'))"
        using seen(2) by auto
      show ?thesis
        using r rows unseen now grow cid after [of ?s']
        by (intro exI [of _ ?new] exI [of _ ?s']) auto
    next
      case (Some y)
      have r: "sync_product ev p c s = (Inr c, ?v)"
        by (simp add: run found Some Let_def)
      from Some have isin: "?t \<in> set (producto_names (rows ?v))"
        using find_producto_None [of ?t "rows ?v"] by simp
      with seen(2) have "?t \<in> set (producto_names (rows ?s1))"
        by blast
      with r isin show ?thesis
        by (intro exI [of _ "[]"] exI [of _ ?v]) auto
    qed
  qed
qed

lemma sync_products_loop:
  assumes "\<forall>p\<in>set ps. product_record p"
  shows "\<exists>new s'. for_each ps (sync_product ev) c s = (Inr (c + int (length (producto_names new))), s') \<and>
     rows (flushed s') = rows (flushed s) @ new \<and>
     distinct (producto_names new) \<and>
     (\<lambda>p. field p ''title'') ` set ps - set (producto_names (rows (flushed s))) \<subseteq>
       set (producto_names new) \<and>
     set (producto_names new) \<subseteq>
       (\<lambda>p. field p ''title'') ` set ps - set (producto_names (rows (before_query s))) \<and>
     (\<lambda>p. field p ''title'') ` set ps \<subseteq> set (producto_names (rows (before_query s'))) \<and>
     set (producto_names (rows (before_query s))) \<subseteq> set (producto_names (rows (before_query s'))) \<and>
     paired ev ps new \<and> refs_ok (rows (flushed s)) new \<and>
     autoflush s' = autoflush s \<and> calls s' = calls s \<and> logs s' = logs s \<and> commits s' = commits s"
  using assms
proof (induction ps arbitrary: c s)
  case Nil
  show ?case by (rule exI [of _ "[]"]) simp
next
  case (Cons p ps)
  let ?t = "field p ''title''"
  let ?titles = "\<lambda>ps. (\<lambda>p. field p ''title'') ` set ps"
  let ?F = "\<lambda>s. set (producto_names (rows (flushed s)))"
  let ?V = "\<lambda>s. set (producto_names (rows (before_query s)))"
  from Cons.prems have wf: "product_record p" and wfs: "\<forall>p\<in>set ps. product_record p"
    by simp_all
  from sync_product_step [OF wf, of ev c s] obtain new1 s1 where st:
    "sync_product ev p c s = (Inr (c + int (length (producto_names new1))), s1)"
    "rows (flushed s1) = rows (flushed s) @ new1"
    "producto_names new1 = [] \<or> producto_names new1 = [?t]"
    "?t \<notin> ?F s \<longrightarrow> producto_names new1 = [?t]"
    "?t \<in> ?V s \<longrightarrow> producto_names new1 = []"
    "?t \<in> ?V s1" "?V s \<subseteq> ?V s1"
    "paired ev [p] new1" "refs_ok (rows (flushed s)) new1"
    "autoflush s1 = autoflush s" "calls s1 = calls s" "logs s1 = logs s" "commits s1 = commits s"
    by blast
  from Cons.IH [OF wfs, of "c + int (length (producto_names new1))" s1] obtain new2 s' where ih:
    "for_each ps (sync_product ev) (c + int (length (producto_names new1))) s1 =
       (Inr (c + int (length (producto_names new1)) + int (length (producto_names new2))), s')"
    "rows (flushed s') = rows (flushed s1) @ new2"
    "distinct (producto_names new2)"
    "?titles ps - ?F s1 \<subseteq> set (producto_names new2)"
    "set (producto_names new2) \<subseteq> ?titles ps - ?V s1"
    "?titles ps \<subseteq> ?V s'" "?V s1 \<subseteq> ?V s'"
    "paired ev ps new2" "refs_ok (rows (flushed s1)) new2"
    "autoflush s' = autoflush s1" "calls s' = calls s1" "logs s' = logs s1" "commits s' = commits s1"
    by blast
  have fresh: "?t \<notin> set (producto_names new2)"
    using st(6) ih(5) by blast
  have F1: "?F s1 = ?F s \<union> set (producto_names new1)"
    using st(2) by simp
  show ?case
  proof (intro exI [of _ "new1 @ new2"] exI [of _ s'] conjI)
    show "for_each (p # ps) (sync_product ev) c s =
        (Inr (c + int (length (producto_names (new1 @ new2)))), s')"
      using st(1) ih(1) by (simp add: andthen_def)
    show "rows (flushed s') = rows (flushed s) @ new1 @ new2"
      using st(2) ih(2) by simp
    show "distinct (producto_names (new1 @ new2))"
      using st(3) ih(3) fresh by auto
    show "?titles (p # ps) - ?F s \<subseteq> set (producto_names (new1 @ new2))"
      using st(4) ih(4) F1 by auto
    show "set (producto_names (new1 @ new2)) \<subseteq> ?titles (p # ps) - ?V s"
      using st(3,5,7) ih(5) by auto
    show "?titles (p # ps) \<subseteq> ?V s'"
      using st(6) ih(6,7) by auto
    show "?V s \<subseteq> ?V s'"
      using st(7) ih(7) by blast
    show "paired ev (p # ps) (new1 @ new2)"
    proof (rule paired_append)
      show "paired ev (p # ps) new1" using st(8) by (rule paired_first)
      show "paired ev (p # ps) new2" using ih(8) fresh by (rule paired_later)
    qed
    show "refs_ok (rows (flushed s)) (new1 @ new2)"
      using st(2,9) ih(9) by (simp add: refs_ok_append)
    show "autoflush s' = autoflush s" "calls s' = calls s" "logs s' = logs s" "commits s' = commits s"
      using st(10,11,12,13) ih(10,11,12,13) by simp_all
  qed
qed

lemma sync_products_run:
  assumes "payload ev (base_url @ ''/products?limit='' @ str_int limit) (JArr []) = JArr ps"
    and "\<forall>p\<in>set ps. product_record p"
  shows "\<exists>new s'. sync_products_to_db ev limit s = (Inr (int (length (producto_names new))), s') \<and>
     rows s' = rows (flushed s) @ new \<and> pending s' = [] \<and> autoflush s' = autoflush s \<and>
     distinct (producto_names new) \<and>
     (\<lambda>p. field p ''title'') ` set ps - set (producto_names (rows (flushed s))) \<subseteq>
       set (producto_names new) \<and>
     set (producto_names new) \<subseteq>
       (\<lambda>p. field p ''title'') ` set ps - set (producto_names (rows (before_query s))) \<and>
     (\<lambda>p. field p ''title'') ` set ps \<subseteq> set (producto_names (rows s')) \<and>
     paired ev ps new \<and> refs_ok (rows (flushed s)) new"
proof -
  let ?url = "base_url @ ''/products?limit='' @ str_int limit"
  let ?logged = "case signals ev ?url of None \<Rightarrow> [] | Some e \<Rightarrow> [LogError AtGetProducts e]"
  let ?s1 = "s\<lparr>calls := calls s @ [?url], logs := logs s @ ?logged\<rparr>"
  have g: "get_products ev limit s = (Inr (JArr ps), ?s1)"
    using assms(1) by (simp add: get_products_def fetch_run)
  from sync_products_loop [OF assms(2), of ev 0 ?s1] obtain new s2 where l:
    "for_each ps (sync_product ev) 0 ?s1 = (Inr (int (length (producto_names new))), s2)"
    "rows (flushed s2) = rows (flushed ?s1) @ new"
    "distinct (producto_names new)"
    "(\<lambda>p. field p ''title'') ` set ps - set (producto_names (rows (flushed ?s1))) \<subseteq>
       set (producto_names new)"
    "set (producto_names new) \<subseteq>
       (\<lambda>p. field p ''title'') ` set ps - set (producto_names (rows (before_query ?s1)))"
    "(\<lambda>p. field p ''title'') ` set ps \<subseteq> set (producto_names (rows (before_query s2)))"
    "paired ev ps new" "refs_ok (rows (flushed ?s1)) new"
    "autoflush s2 = autoflush ?s1"
    by auto
  have all: "(\<lambda>p. field p ''title'') ` set ps \<subseteq> set (producto_names (rows (flushed s2)))"
    using l(6) seen_names(2) [of s2] by blast
  show ?thesis
    using g l(1,2,3,4,5,7,8,9) all
    by (intro exI [of _ new]) (simp add: sync_products_to_db_def andthen_def)
qed

section \<open>The sample inputs\<close>

lemma sample_fetches:
  "payload api_shop (base_url @ ''/products?limit='' @ str_int 1) (JArr []) = JArr [shirt]"
  "payload api_shop (base_url @ ''/products?limit='' @ str_int 100) (JArr []) = JArr [shirt, lamp]"
  "payload api_repriced (base_url @ ''/products?limit='' @ str_int 1) (JArr []) = JArr [shirt_repriced]"
  by (simp_all add: payload_def api_shop_def api_repriced_def base_url_def str_int_def digit_char_def)

lemma sample_records:
  "product_record shirt" "product_record lamp" "product_record shirt_repriced"
  by (simp_all add: product_record_def has_key_def shirt_def lamp_def shirt_repriced_def)

lemma sample_titles:
  "field shirt ''title'' = JStr ''shirt''" "field lamp ''title'' = JStr ''Lamp''"
  "field shirt_repriced ''title'' = JStr ''shirt''"
  by (simp_all add: field_def shirt_def lamp_def shirt_repriced_def)

lemma sample_lists:
  "\<forall>p\<in>set [shirt]. product_record p"
  "\<forall>p\<in>set [shirt, lamp]. product_record p"
  "\<forall>p\<in>set [shirt_repriced]. product_record p"
  "(\<lambda>p. field p ''title'') ` set [shirt_repriced] \<subseteq> (\<lambda>p. field p ''title'') ` set [shirt]"
  by (simp_all add: sample_records sample_titles)

lemma empty_store_flushed: "flushed empty_store = empty_store"
  by (simp add: flushed_def empty_store_def)

lemma empty_store_rows: "rows empty_store = []"
  by (simp add: empty_store_def)




section \<open>Products are created once per new title\<close>



section \<open>Each new product has its one variant\<close>

text \<open>
  Claim C8. The rows the store held stay as they were. Every fetched record whose title
  the store did not hold has a product row among the rows \<open>sync_products_to_db\<close> writes,
  and among these rows every product row carries the brand \<^verbatim>\<open>API Externa\<close> and is
  directly followed by its one variant row: the variant refers to the product's id, its
  SKU is \<^verbatim>\<open>API-\<close> followed by the text of the record's external id (for an integer
  id its decimal numeral, which \<open>str_int_reads_back\<close> reads back), its size is \<^verbatim>\<open>M\<close>,
  its colour \<^verbatim>\<open>N/A\<close>, and its price and image are the values of the record. No other
  variant row is written.
\<close>

theorem new_product_gets_one_variant:
  assumes "payload ev (base_url @ ''/products?limit='' @ str_int limit) (JArr []) = JArr ps"
    and "\<forall>p\<in>set ps. product_record p"
  shows "\<exists>new s'.
     sync_products_to_db ev limit s = (Inr (int (length (producto_names new))), s') \<and>
     rows s' = rows (flushed s) @ new \<and>
     (\<lambda>p. field p ''title'') ` set ps - set (producto_names (rows (flushed s))) \<subseteq>
       set (producto_names new) \<and>
     length (variante_rows new) = length (producto_names new) \<and>
     paired ev ps new"
proof -
  from sync_products_run [OF assms, of s] obtain new s' where run:
    "sync_products_to_db ev limit s = (Inr (int (length (producto_names new))), s')"
    "rows s' = rows (flushed s) @ new"
    "(\<lambda>p. field p ''title'') ` set ps - set (producto_names (rows (flushed s))) \<subseteq>
       set (producto_names new)"
    "paired ev ps new"
    by blast
  show ?thesis
    using run paired_counts [OF run(4)]
    by (intro exI [of _ new] exI [of _ s']) simp
qed

theorem new_product_gets_one_variant_witness:
  "fst (sync_products_to_db api_shop 100 empty_store) = Inr 2 \<and>
   rows (snd (sync_products_to_db api_shop 100 empty_store)) =
     [Categoria \<lparr>id_categoria = Some 1, nombre = ''Men'S Clothing''\<rparr>,
      Producto \<lparr>id_producto = Some 1, prod_nombre = JStr ''shirt'', prod_id_categoria = Some 1,
                marca = ''API Externa''\<rparr>,
      ProductoVariante \<lparr>id_variante = Some 1, var_id_producto = Some 1, sku = ''API-1'',
                        talla = ''M'', color = ''N/A'', precio = JFloat (Finite (999 / 100)),
                        image_url = JStr ''u1''\<rparr>,
      Categoria \<lparr>id_categoria = Some 2, nombre = ''Home''\<rparr>,
      Producto \<lparr>id_producto = Some 2, prod_nombre = JStr ''Lamp'', prod_id_categoria = Some 2,
                marca = ''API Externa''\<rparr>,
      ProductoVariante \<lparr>id_variante = Some 2, var_id_producto = Some 2, sku = ''API-2'',
                        talla = ''M'', color = ''N/A'', precio = JInt 5,
                        image_url = JStr ''u2''\<rparr>] \<and>
   {JStr ''shirt'', JStr ''Lamp''} \<subseteq>
     set (producto_names (rows (snd (sync_products_to_db api_shop 100 empty_store)))) \<and>
   length (variante_rows (rows (snd (sync_products_to_db api_shop 100 empty_store)))) =
     length (producto_names (rows (snd (sync_products_to_db api_shop 100 empty_store)))) \<and>
   paired api_shop [shirt, lamp] (rows (snd (sync_products_to_db api_shop 100 empty_store)))"
proof -
  have count: "fst (sync_products_to_db api_shop 100 empty_store) = Inr 2"
    by code_simp
  have written: "rows (snd (sync_products_to_db api_shop 100 empty_store)) =
     [Categoria \<lparr>id_categoria = Some 1, nombre = ''Men'S Clothing''\<rparr>,
      Producto \<lparr>id_producto = Some 1, prod_nombre = JStr ''shirt'', prod_id_categoria = Some 1,
                marca = ''API Externa''\<rparr>,
      ProductoVariante \<lparr>id_variante = Some 1, var_id_producto = Some 1, sku = ''API-1'',
                        talla = ''M'', color = ''N/A'', precio = JFloat (Finite (999 / 100)),
                        image_url = JStr ''u1''\<rparr>,
      Categoria \<lparr>id_categoria = Some 2, nombre = ''Home''\<rparr>,
      Producto \<lparr>id_producto = Some 2, prod_nombre = JStr ''Lamp'', prod_id_categoria = Some 2,
                marca = ''API Externa''\<rparr>,
      ProductoVariante \<lparr>id_variante = Some 2, var_id_producto = Some 2, sku = ''API-2'',
                        talla = ''M'', color = ''N/A'', precio = JInt 5,
                        image_url = JStr ''u2''\<rparr>]"
    by code_simp
  from new_product_gets_one_variant [OF sample_fetches(2) sample_lists(2), of empty_store]
  obtain new s' where run:
    "sync_products_to_db api_shop 100 empty_store = (Inr (int (length (producto_names new))), s')"
    "rows s' = new"
    "{JStr ''shirt'', JStr ''Lamp''} \<subseteq> set (producto_names new)"
    "length (variante_rows new) = length (producto_names new)"
    "paired api_shop [shirt, lamp] new"
    by (auto simp: sample_titles empty_store_flushed empty_store_rows)
  from run have
    "{JStr ''shirt'', JStr ''Lamp''} \<subseteq>
       set (producto_names (rows (snd (sync_products_to_db api_shop 100 empty_store))))"
    "length (variante_rows (rows (snd (sync_products_to_db api_shop 100 empty_store)))) =
       length (producto_names (rows (snd (sync_products_to_db api_shop 100 empty_store))))"
    "paired api_shop [shirt, lamp] (rows (snd (sync_products_to_db api_shop 100 empty_store)))"
    by simp_all
  with count written show ?thesis by (intro conjI)
qed

section \<open>The category of a product is written before the product\<close>

text \<open>
  Claim C6. In the order in which \<open>sync_products_to_db\<close> inserts its rows, every product
  row refers to the id of a category row that is already in the store when the product row
  is inserted: a row the store held before, or one inserted earlier in the same run.
\<close>

theorem product_category_exists_before:
  assumes "payload ev (base_url @ ''/products?limit='' @ str_int limit) (JArr []) = JArr ps"
    and "\<forall>p\<in>set ps. product_record p"
  shows "\<exists>new s'.
     sync_products_to_db ev limit s = (Inr (int (length (producto_names new))), s') \<and>
     rows s' = rows (flushed s) @ new \<and>
     refs_ok (rows (flushed s)) new"
  using sync_products_run [OF assms, of s] by blast

theorem product_category_exists_before_witness:
  "\<exists>new s'.
     sync_products_to_db api_shop 100 empty_store = (Inr (int (length (producto_names new))), s') \<and>
     rows s' = new \<and>
     refs_ok [] new"
  using product_category_exists_before [OF sample_fetches(2) sample_lists(2), of empty_store]
  by (simp add: empty_store_flushed empty_store_rows)

section \<open>The name of a product is the fetched title\<close>

text \<open>
  Claim C1 says that the product row created for a fetched record is named by the
  title-cased title. For a record titled \<^verbatim>\<open>shirt\<close> the row is named \<^verbatim>\<open>shirt\<close>, not
  \<^verbatim>\<open>Shirt\<close>: only the category name is title-cased (lines 88 and 92), the product is
  looked up and created under the title as fetched (lines 98 and 104).
\<close>

theorem product_named_by_title_cased_title_counterexample:
  "producto_names (rows (snd (sync_products_to_db api_shop 1 empty_store))) = [JStr ''shirt''] \<and>
   str_title ''shirt'' = ''Shirt'' \<and>
   producto_names (rows (snd (sync_products_to_db api_shop 1 empty_store))) \<noteq> [JStr (str_title ''shirt'')]"
  by code_simp

text \<open>
  Claim C1, amended. The product rows \<open>sync_products_to_db\<close> writes are named by titles of
  the fetched records exactly as fetched, and after the run every fetched title names a
  product row of the store.
\<close>

theorem product_named_by_fetched_title:
  assumes "payload ev (base_url @ ''/products?limit='' @ str_int limit) (JArr []) = JArr ps"
    and "\<forall>p\<in>set ps. product_record p"
  shows "\<exists>new s'.
     sync_products_to_db ev limit s = (Inr (int (length (producto_names new))), s') \<and>
     rows s' = rows (flushed s) @ new \<and>
     set (producto_names new) \<subseteq> (\<lambda>p. field p ''title'') ` set ps \<and>
     (\<forall>p\<in>set ps. field p ''title'' \<in> set (producto_names (rows s')))"
proof -
  from sync_products_run [OF assms, of s] obtain new s' where run:
    "sync_products_to_db ev limit s = (Inr (int (length (producto_names new))), s')"
    "rows s' = rows (flushed s) @ new"
    "set (producto_names new) \<subseteq>
       (\<lambda>p. field p ''title'') ` set ps - set (producto_names (rows (before_query s)))"
    "(\<lambda>p. field p ''title'') ` set ps \<subseteq> set (producto_names (rows s'))"
    by blast
  show ?thesis
  proof (rule exI [of _ new], rule exI [of _ s'], intro conjI)
    show "set (producto_names new) \<subseteq> (\<lambda>p. field p ''title'') ` set ps"
      using run(3) by blast
    show "\<forall>p\<in>set ps. field p ''title'' \<in> set (producto_names (rows s'))"
      using run(4) by blast
  qed (use run in simp_all)
qed

theorem product_named_by_fetched_title_witness:
  "\<exists>new s'.
     sync_products_to_db api_shop 1 empty_store = (Inr (int (length (producto_names new))), s') \<and>
     rows s' = new \<and>
     set (producto_names new) \<subseteq> {JStr ''shirt''} \<and>
     JStr ''shirt'' \<in> set (producto_names (rows s'))"
  using product_named_by_fetched_title [OF sample_fetches(1) sample_lists(1), of empty_store]
  by (simp add: sample_titles empty_store_flushed empty_store_rows)

section \<open>Facts about the list operations\<close>

lemma starts_with_iff: "starts_with a b \<longleftrightarrow> (\<exists>post. b = a @ post)"
  by (induction a b rule: starts_with.induct) auto

lemma str_contains_iff: "str_contains a b \<longleftrightarrow> (\<exists>pre post. b = pre @ a @ post)"
proof (induction a b rule: str_contains.induct)
  case (1 a)
  show ?case by auto
next
  case (2 a d ds)
  show ?case
  proof
    assume "str_contains a (d # ds)"
    then consider "starts_with a (d # ds)" | "str_contains a ds" by auto
    then show "\<exists>pre post. d # ds = pre @ a @ post"
    proof cases
      case 1
      then obtain post where "d # ds = a @ post" by (auto simp: starts_with_iff)
      then have "d # ds = [] @ a @ post" by simp
      then show ?thesis by blast
    next
      case 2
      with "2.IH" obtain pre post where "ds = pre @ a @ post" by auto
      then have "d # ds = (d # pre) @ a @ post" by simp
      then show ?thesis by blast
    qed
  next
    assume "\<exists>pre post. d # ds = pre @ a @ post"
    then obtain pre post where e: "d # ds = pre @ a @ post" by auto
    show "str_contains a (d # ds)"
    proof (cases pre)
      case Nil
      with e have "starts_with a (d # ds)" by (auto simp: starts_with_iff)
      then show ?thesis by simp
    next
      case (Cons x pre')
      with e have "ds = pre' @ a @ post" by simp
      with "2.IH" have "str_contains a ds" by blast
      then show ?thesis by simp
    qed
  qed
qed

lemma filter_raising_ok:
  "\<forall>x\<in>set xs. cond x = Inr (P x) \<Longrightarrow> filter_raising cond xs = Inr (filter P xs)"
  by (induction xs) auto

lemma filter_raising_fail:
  "x \<in> set xs \<Longrightarrow> cond x = Inl e \<Longrightarrow> \<exists>e'. filter_raising cond xs = Inl e'"
  by (induction xs) (auto split: sum.splits)

lemma title_matches_titled: "titled p \<Longrightarrow> title_matches query p = Inr (title_contains query p)"
  by (auto simp: titled_def title_matches_def title_contains_def split: sum.splits json.splits)

lemma title_matches_untitled: "\<not> titled p \<Longrightarrow> \<exists>e. title_matches query p = Inl e"
  by (auto simp: titled_def title_matches_def split: sum.splits json.splits)

lemma slice_to_nonneg [simp]: "0 \<le> n \<Longrightarrow> slice_to n xs = take (nat n) xs"
  by (simp add: slice_to_def)

lemma str_int_100 [simp]: "str_int 100 = ''100''"
  by code_simp

lemma search_fetch:
  "(case category of
      None \<Rightarrow> get_products ev 100
    | Some c \<Rightarrow> if c \<noteq> [] then get_products_by_category ev (JStr c) else get_products ev 100) s =
   (Inr (payload ev (search_url category) (JArr [])),
    s\<lparr>calls := calls s @ [search_url category],
      logs := logs s @ (case signals ev (search_url category) of
                          None \<Rightarrow> []
                        | Some e \<Rightarrow> [LogError (case category of
                                                None \<Rightarrow> AtGetProducts
                                              | Some c \<Rightarrow> if c \<noteq> [] then AtGetProductsByCategory (JStr c)
                                                          else AtGetProducts) e])\<rparr>)"
  by (simp add: search_url_def get_products_def get_products_by_category_def fetch_run
      split: option.splits)

section \<open>Search\<close>

text \<open>
  Claim C9. \<open>search_products\<close> issues one request: for the products of the category when a
  category is given (a string that is not empty), for the first 100 products otherwise.
  When the pool it receives is a sequence of records with string titles, it returns the
  first 20, in the order of the pool, of the records whose title contains the query, both
  taken in lower case. When the pool is of any other shape, it returns the empty list and
  logs the error.
\<close>

theorem search_products_filters_pool:
  "calls (snd (search_products ev query category s)) = calls s @ [search_url category] \<and>
   (\<forall>items. iterate (payload ev (search_url category) (JArr [])) = Inr items \<and>
        (\<forall>p\<in>set items. titled p) \<longrightarrow>
      fst (search_products ev query category s) =
        Inr (take 20 (filter (title_contains query) items))) \<and>
   (\<forall>items. iterate (payload ev (search_url category) (JArr [])) = Inr items \<and>
        \<not> (\<forall>p\<in>set items. titled p) \<longrightarrow>
      fst (search_products ev query category s) = Inr [] \<and>
      (\<exists>e. last (logs (snd (search_products ev query category s))) = LogError AtSearch e)) \<and>
   (\<forall>e. iterate (payload ev (search_url category) (JArr [])) = Inl e \<longrightarrow>
      fst (search_products ev query category s) = Inr [] \<and>
      last (logs (snd (search_products ev query category s))) = LogError AtSearch e)"
proof (intro conjI allI impI)
  let ?pool = "payload ev (search_url category) (JArr [])"
  note defs = search_products_def try_except_def andthen_def any_exception_def search_fetch
  show "calls (snd (search_products ev query category s)) = calls s @ [search_url category]"
    by (simp add: defs split: sum.splits)
  {
    fix items
    assume a: "iterate ?pool = Inr items \<and> (\<forall>p\<in>set items. titled p)"
    then have "filter_raising (title_matches query) items = Inr (filter (title_contains query) items)"
      by (intro filter_raising_ok) (simp add: title_matches_titled)
    with a show "fst (search_products ev query category s) =
        Inr (take 20 (filter (title_contains query) items))"
      by (simp add: defs)
  }
  {
    fix items
    assume a: "iterate ?pool = Inr items \<and> \<not> (\<forall>p\<in>set items. titled p)"
    then obtain p where "p \<in> set items" "\<not> titled p" by auto
    then obtain e where "filter_raising (title_matches query) items = Inl e"
      using title_matches_untitled filter_raising_fail by metis
    with a show "fst (search_products ev query category s) = Inr []"
      and "\<exists>e. last (logs (snd (search_products ev query category s))) = LogError AtSearch e"
      by (simp_all add: defs)
  }
  {
    fix e
    assume "iterate ?pool = Inl e"
    then show "fst (search_products ev query category s) = Inr []"
      and "last (logs (snd (search_products ev query category s))) = LogError AtSearch e"
      by (simp_all add: defs)
  }
qed

theorem search_products_filters_pool_witness:
  "calls (snd (search_products api_shop ''SHIRT'' None empty_store)) =
     [''https://fakestoreapi.com/products?limit=100''] \<and>
   fst (search_products api_shop ''SHIRT'' None empty_store) = Inr [shirt] \<and>
   fst (search_products api_malformed ''lamp'' None empty_store) = Inr [] \<and>
   (\<exists>e. last (logs (snd (search_products api_malformed ''lamp'' None empty_store))) = LogError AtSearch e) \<and>
   calls (snd (search_products api_malformed ''lamp'' (Some ''tools'') empty_store)) =
     [''https://fakestoreapi.com/products/category/tools''] \<and>
   fst (search_products api_malformed ''lamp'' (Some ''tools'') empty_store) = Inr [] \<and>
   last (logs (snd (search_products api_malformed ''lamp'' (Some ''tools'') empty_store))) =
     LogError AtSearch TypeError"
proof -
  have u: "search_url None = ''https://fakestoreapi.com/products?limit=100''"
    "search_url (Some ''tools'') = ''https://fakestoreapi.com/products/category/tools''"
    by (simp_all add: search_url_def base_url_def)
  have p1: "iterate (payload api_shop (search_url None) (JArr [])) = Inr [shirt, lamp]"
    by (simp add: u payload_def api_shop_def)
  have t1: "\<forall>p\<in>set [shirt, lamp]. titled p"
    by (simp add: titled_def shirt_def lamp_def)
  have f1: "title_contains ''SHIRT'' shirt" "\<not> title_contains ''SHIRT'' lamp"
    by code_simp+
  have p2: "iterate (payload api_malformed (search_url None) (JArr [])) =
      Inr [lamp, JObj [(''id'', JInt 3)]]"
    by (simp add: u payload_def api_malformed_def)
  have t2: "\<not> (\<forall>p\<in>set [lamp, JObj [(''id'', JInt 3)]]. titled p)"
    by (simp add: titled_def)
  have p3: "iterate (payload api_malformed (search_url (Some ''tools'')) (JArr [])) = Inl TypeError"
    by (simp add: u payload_def api_malformed_def)
  have e: "calls empty_store = []"
    by (simp add: empty_store_def)
  show ?thesis
    using search_products_filters_pool [of api_shop "''SHIRT''" None empty_store] p1 t1
      search_products_filters_pool [of api_malformed "''lamp''" None empty_store] p2 t2
      search_products_filters_pool [of api_malformed "''lamp''" "Some ''tools''" empty_store] p3
    unfolding u e by (simp add: f1)
qed

section \<open>Recommendations\<close>

lemma recommendations_fetch:
  "get_product_by_id ev product_id s =
     (Inr (payload ev (base_url @ ''/products/'' @ str_int product_id) JNull),
      s\<lparr>calls := calls s @ [base_url @ ''/products/'' @ str_int product_id],
        logs := logs s @ (case signals ev (base_url @ ''/products/'' @ str_int product_id) of
                            None \<Rightarrow> []
                          | Some e \<Rightarrow> [LogError (AtGetProductById product_id) e])\<rparr>)"
  by (simp add: get_product_by_id_def fetch_run)

lemma id_differs_keyed:
  "has_key p ''id'' \<Longrightarrow> id_differs product_id p = Inr (\<not> eq_int (field p ''id'') product_id)"
  by (auto simp: has_key_def id_differs_def field_def split: sum.splits)

text \<open>
  Claim C10 says that for every limit at most \<open>limit\<close> records are returned. The result is
  the slice \<^verbatim>\<open>recommendations[:limit]\<close> (line 164), and a negative bound of a slice
  counts from the end: with three other products in the category and the limit \<open>-1\<close>, two
  records are returned.
\<close>

theorem recommendations_exceed_negative_limit_counterexample:
  "fst (get_product_recommendations api_electronics 5 (- 1) empty_store) = Inr [gadget 6, gadget 7] \<and>
   \<not> int (length [gadget 6, gadget 7]) \<le> - 1"
  by code_simp

text \<open>
  Claim C10, amended. When \<open>get_product_by_id\<close> yields no base product (\<^verbatim>\<open>None\<close>, or any
  other falsy value), \<open>get_product_recommendations\<close> returns the empty list and the only
  request issued is the one for the product. Otherwise, when the base product carries a
  category, the pool fetched for that category is a sequence of records that each carry an
  id, and the limit is not negative, it returns the first \<open>limit\<close> records of the pool, in
  the order of the pool, among those whose id differs from the product id.
\<close>

theorem recommendations_from_category:
  "(\<not> truthy (payload ev (base_url @ ''/products/'' @ str_int product_id) JNull) \<longrightarrow>
      fst (get_product_recommendations ev product_id limit s) = Inr [] \<and>
      calls (snd (get_product_recommendations ev product_id limit s)) =
        calls s @ [base_url @ ''/products/'' @ str_int product_id]) \<and>
   (\<forall>category items.
      truthy (payload ev (base_url @ ''/products/'' @ str_int product_id) JNull) \<and>
      getitem (payload ev (base_url @ ''/products/'' @ str_int product_id) JNull) ''category'' =
        Inr category \<and>
      iterate (payload ev (base_url @ ''/products/category/'' @ format_value ev category) (JArr [])) =
        Inr items \<and>
      (\<forall>p\<in>set items. has_key p ''id'') \<and> 0 \<le> limit \<longrightarrow>
      fst (get_product_recommendations ev product_id limit s) =
        Inr (take (nat limit) (filter (\<lambda>p. \<not> eq_int (field p ''id'') product_id) items)) \<and>
      calls (snd (get_product_recommendations ev product_id limit s)) =
        calls s @ [base_url @ ''/products/'' @ str_int product_id,
                   base_url @ ''/products/category/'' @ format_value ev category])"
proof (intro conjI allI impI)
  let ?base = "payload ev (base_url @ ''/products/'' @ str_int product_id) JNull"
  note defs = get_product_recommendations_def try_except_def andthen_def any_exception_def
    recommendations_fetch get_products_by_category_def fetch_run
  {
    assume "\<not> truthy ?base"
    then show "fst (get_product_recommendations ev product_id limit s) = Inr []"
      and "calls (snd (get_product_recommendations ev product_id limit s)) =
        calls s @ [base_url @ ''/products/'' @ str_int product_id]"
      by (simp_all add: defs)
  }
  {
    fix category items
    assume a: "truthy ?base \<and> getitem ?base ''category'' = Inr category \<and>
      iterate (payload ev (base_url @ ''/products/category/'' @ format_value ev category) (JArr [])) =
        Inr items \<and>
      (\<forall>p\<in>set items. has_key p ''id'') \<and> 0 \<le> limit"
    then have f: "filter_raising (id_differs product_id) items =
        Inr (filter (\<lambda>p. \<not> eq_int (field p ''id'') product_id) items)"
      by (intro filter_raising_ok) (simp add: id_differs_keyed)
    from a f show "fst (get_product_recommendations ev product_id limit s) =
        Inr (take (nat limit) (filter (\<lambda>p. \<not> eq_int (field p ''id'') product_id) items))"
      and "calls (snd (get_product_recommendations ev product_id limit s)) =
        calls s @ [base_url @ ''/products/'' @ str_int product_id,
                   base_url @ ''/products/category/'' @ format_value ev category]"
      by (simp_all add: defs)
  }
qed

theorem recommendations_from_category_witness:
  "fst (get_product_recommendations api_down 5 2 empty_store) = Inr [] \<and>
   calls (snd (get_product_recommendations api_down 5 2 empty_store)) =
     [''https://fakestoreapi.com/products/5''] \<and>
   fst (get_product_recommendations api_electronics 5 2 empty_store) = Inr [gadget 6, gadget 7] \<and>
   calls (snd (get_product_recommendations api_electronics 5 2 empty_store)) =
     [''https://fakestoreapi.com/products/5'', ''https://fakestoreapi.com/products/category/electronics'']"
proof -
  have u: "base_url @ ''/products/'' @ str_int 5 = ''https://fakestoreapi.com/products/5''"
    by (simp add: base_url_def str_int_def digit_char_def)
  have b0: "\<not> truthy (payload api_down (base_url @ ''/products/'' @ str_int 5) JNull)"
    by (simp add: payload_def api_down_def)
  have b: "payload api_electronics (base_url @ ''/products/'' @ str_int 5) JNull = gadget 5"
    unfolding u by (simp add: payload_def api_electronics_def)
  have c: "getitem (gadget 5) ''category'' = Inr (JStr ''electronics'')" "truthy (gadget 5)"
    by (simp_all add: gadget_def)
  have v: "base_url @ ''/products/category/'' @ format_value api_electronics (JStr ''electronics'') =
      ''https://fakestoreapi.com/products/category/electronics''"
    by (simp add: base_url_def)
  have p: "iterate (payload api_electronics
        (base_url @ ''/products/category/'' @ format_value api_electronics (JStr ''electronics'')) (JArr [])) =
      Inr [gadget 5, gadget 6, gadget 7, gadget 8]"
    unfolding v by (simp add: payload_def api_electronics_def)
  have k: "\<forall>p\<in>set [gadget 5, gadget 6, gadget 7, gadget 8]. has_key p ''id''"
    by (simp add: has_key_def gadget_def)
  have f: "take (nat 2) (filter (\<lambda>p. \<not> eq_int (field p ''id'') 5) [gadget 5, gadget 6, gadget 7, gadget 8]) =
      [gadget 6, gadget 7]"
    by (simp add: field_def gadget_def)
  have e: "calls empty_store = []"
    by (simp add: empty_store_def)
  have first: "fst (get_product_recommendations api_down 5 2 empty_store) = Inr [] \<and>
      calls (snd (get_product_recommendations api_down 5 2 empty_store)) =
        [''https://fakestoreapi.com/products/5'']"
    using recommendations_from_category [of api_down 5 2 empty_store] b0
    unfolding u e by simp
  have second: "fst (get_product_recommendations api_electronics 5 2 empty_store) = Inr [gadget 6, gadget 7] \<and>
      calls (snd (get_product_recommendations api_electronics 5 2 empty_store)) =
        [''https://fakestoreapi.com/products/5'', ''https://fakestoreapi.com/products/category/electronics'']"
    using recommendations_from_category [of api_electronics 5 2 empty_store,
        THEN conjunct2, THEN spec, THEN spec, THEN mp, of "JStr ''electronics''"
        "[gadget 5, gadget 6, gadget 7, gadget 8]"] b c p k
    unfolding f u v e by simp
  from first second show ?thesis by simp
qed

section \<open>Which operations can raise\<close>

lemma try_except_any_total:
  assumes "\<And>e t. \<exists>x t'. h e t = (Inr x, t')"
  shows "\<exists>x s'. try_except m any_exception h s = (Inr x, s')"
proof (cases "m s")
  case (Pair r t)
  show ?thesis
  proof (cases r)
    case (Inl e)
    with Pair assms [of e t] show ?thesis
      by (auto simp: try_except_def any_exception_def)
  next
    case (Inr x)
    with Pair show ?thesis
      by (simp add: try_except_def)
  qed
qed

lemma sync_categories_total:
  assumes "payload ev (base_url @ ''/products/categories'') (JArr []) = JArr (map JStr names)"
  shows "\<exists>n s'. sync_categories_to_db ev s = (Inr n, s')"
proof (cases "autoflush s")
  case True
  then have "autoflush s \<or> pending s = [] \<and> distinct (map str_title names)" by simp
  from sync_categories_run [OF assms this] show ?thesis by blast
next
  case False
  let ?url = "base_url @ ''/products/categories''"
  let ?logged = "case signals ev ?url of None \<Rightarrow> [] | Some e \<Rightarrow> [LogError AtGetCategories e]"
  let ?s1 = "s\<lparr>calls := calls s @ [?url], logs := logs s @ ?logged\<rparr>"
  have g: "get_categories ev s = (Inr (JArr (map JStr names)), ?s1)"
    using assms by (simp add: get_categories_def fetch_run)
  from False have "\<not> autoflush ?s1" by simp
  from sync_categorias_loop_plain [OF this, of names 0] obtain n s2 where
    "for_each (map JStr names) sync_categoria 0 ?s1 = (Inr n, s2)"
    by blast
  with g show ?thesis
    by (simp add: sync_categories_to_db_def andthen_def)
qed

lemma sync_each_result_run:
  assumes "payload ev (base_url @ ''/products?limit='' @ str_int 1) (JArr []) = JArr ps"
    and "\<forall>p\<in>set ps. product_record p"
  shows "\<exists>s'. for_each results (\<lambda>product u. andthen (sync_products_to_db ev 1) (\<lambda>_. ret u)) () s =
     (Inr (), s')"
proof (induction results arbitrary: s)
  case Nil
  show ?case by simp
next
  case (Cons r results)
  from sync_products_run [OF assms, of s] obtain n s1 where
    "sync_products_to_db ev 1 s = (Inr n, s1)" by blast
  with Cons.IH [of s1] show ?case
    by (auto simp: andthen_def)
qed

text \<open>
  Claim C3 says that no operation raises, whatever the shape of the fetched payload. The
  two sync operations have no handler of their own (lines 61-125), and the fetch layer
  catches request errors only: a product record without a category makes
  \<open>sync_products_to_db\<close> raise \<^verbatim>\<open>KeyError\<close>, and a category name that is a number makes
  \<open>sync_categories_to_db\<close> raise \<^verbatim>\<open>AttributeError\<close>.
\<close>

theorem sync_raises_on_ill_shaped_payload_counterexample:
  "fst (sync_products_to_db api_malformed 1 empty_store) = Inl (KeyError ''category'') \<and>
   fst (sync_categories_to_db api_malformed empty_store) = Inl AttributeError"
  by code_simp

text \<open>
  Claim C3, amended. For every input and every fetch outcome, the four fetch operations,
  \<open>search_products\<close> and \<open>get_product_recommendations\<close> return normally. The operations
  that sync return normally when the payload they fetch has the expected shape: a list of
  names for \<open>sync_categories_to_db\<close>, a list of product records for \<open>sync_products_to_db\<close>
  (and for the single-item sync of \<open>search_and_sync\<close>), both for \<open>sync_all_data\<close>.
\<close>

theorem operations_return_normally:
  "(\<exists>v s'. get_categories ev s = (Inr v, s')) \<and>
   (\<exists>v s'. get_products ev limit s = (Inr v, s')) \<and>
   (\<exists>v s'. get_product_by_id ev product_id s = (Inr v, s')) \<and>
   (\<exists>v s'. get_products_by_category ev cat s = (Inr v, s')) \<and>
   (\<exists>rs s'. search_products ev query category s = (Inr rs, s')) \<and>
   (\<exists>rs s'. get_product_recommendations ev product_id limit s = (Inr rs, s')) \<and>
   (\<forall>names. payload ev (base_url @ ''/products/categories'') (JArr []) = JArr (map JStr names) \<longrightarrow>
      (\<exists>n s'. sync_categories_to_db ev s = (Inr n, s'))) \<and>
   (\<forall>ps. payload ev (base_url @ ''/products?limit='' @ str_int limit) (JArr []) = JArr ps \<and>
         (\<forall>p\<in>set ps. product_record p) \<longrightarrow>
      (\<exists>n s'. sync_products_to_db ev limit s = (Inr n, s'))) \<and>
   (\<forall>names ps. payload ev (base_url @ ''/products/categories'') (JArr []) = JArr (map JStr names) \<and>
         payload ev (base_url @ ''/products?limit='' @ str_int limit) (JArr []) = JArr ps \<and>
         (\<forall>p\<in>set ps. product_record p) \<longrightarrow>
      (\<exists>r s'. sync_all_data ev limit s = (Inr r, s'))) \<and>
   (\<forall>ps. payload ev (base_url @ ''/products?limit='' @ str_int 1) (JArr []) = JArr ps \<and>
         (\<forall>p\<in>set ps. product_record p) \<longrightarrow>
      (\<exists>rs s'. search_and_sync ev query category s = (Inr rs, s')))"
proof -
  have search: "\<exists>rs s'. search_products ev query category t = (Inr rs, s')" for t
    unfolding search_products_def by (rule try_except_any_total) (simp add: andthen_def)
  have recs: "\<exists>rs s'. get_product_recommendations ev product_id limit s = (Inr rs, s')"
    unfolding get_product_recommendations_def by (rule try_except_any_total) (simp add: andthen_def)
  have all: "\<exists>r s'. sync_all_data ev limit s = (Inr r, s')"
    if c: "payload ev (base_url @ ''/products/categories'') (JArr []) = JArr (map JStr names)"
      and p: "payload ev (base_url @ ''/products?limit='' @ str_int limit) (JArr []) = JArr ps"
      and w: "\<forall>p\<in>set ps. product_record p" for names ps
  proof -
    from sync_categories_total [OF c, of s] obtain n s1 where
      "sync_categories_to_db ev s = (Inr n, s1)" by blast
    moreover from sync_products_run [OF p w, of s1] obtain m s2 where
      "sync_products_to_db ev limit s1 = (Inr m, s2)" by blast
    ultimately show ?thesis
      by (simp add: sync_all_data_def andthen_def)
  qed
  have sas: "\<exists>rs s'. search_and_sync ev query category s = (Inr rs, s')"
    if p: "payload ev (base_url @ ''/products?limit='' @ str_int 1) (JArr []) = JArr ps"
      and w: "\<forall>p\<in>set ps. product_record p" for ps
  proof -
    from search [of s] obtain rs s1 where
      "search_products ev query category s = (Inr rs, s1)" by blast
    moreover from sync_each_result_run [OF p w, of "slice_to 5 rs" s1] obtain s2 where
      "for_each (slice_to 5 rs) (\<lambda>product u. andthen (sync_products_to_db ev 1) (\<lambda>_. ret u)) () s1 =
         (Inr (), s2)" by blast
    ultimately show ?thesis
      by (simp add: search_and_sync_def andthen_def)
  qed
  show ?thesis
  proof (intro conjI allI impI)
    show "\<exists>v s'. get_categories ev s = (Inr v, s')"
      by (simp add: get_categories_def fetch_run)
    show "\<exists>v s'. get_products ev limit s = (Inr v, s')"
      by (simp add: get_products_def fetch_run)
    show "\<exists>v s'. get_product_by_id ev product_id s = (Inr v, s')"
      by (simp add: get_product_by_id_def fetch_run)
    show "\<exists>v s'. get_products_by_category ev cat s = (Inr v, s')"
      by (simp add: get_products_by_category_def fetch_run)
    show "\<exists>rs s'. search_products ev query category s = (Inr rs, s')"
      by (rule search)
    show "\<exists>rs s'. get_product_recommendations ev product_id limit s = (Inr rs, s')"
      by (rule recs)
    show "\<exists>n s'. sync_categories_to_db ev s = (Inr n, s')"
      if "payload ev (base_url @ ''/products/categories'') (JArr []) = JArr (map JStr names)" for names
      using that by (rule sync_categories_total)
    show "\<exists>n s'. sync_products_to_db ev limit s = (Inr n, s')"
      if "payload ev (base_url @ ''/products?limit='' @ str_int limit) (JArr []) = JArr ps \<and>
         (\<forall>p\<in>set ps. product_record p)" for ps
      using sync_products_run [of ev limit ps s] that by blast
    show "\<exists>r s'. sync_all_data ev limit s = (Inr r, s')"
      if "payload ev (base_url @ ''/products/categories'') (JArr []) = JArr (map JStr names) \<and>
         payload ev (base_url @ ''/products?limit='' @ str_int limit) (JArr []) = JArr ps \<and>
         (\<forall>p\<in>set ps. product_record p)" for names ps
      using all [of names ps] that by blast
    show "\<exists>rs s'. search_and_sync ev query category s = (Inr rs, s')"
      if "payload ev (base_url @ ''/products?limit='' @ str_int 1) (JArr []) = JArr ps \<and>
         (\<forall>p\<in>set ps. product_record p)" for ps
      using sas [of ps] that by blast
  qed
qed

theorem operations_return_normally_witness:
  "(\<exists>v s'. get_categories api_shop empty_store = (Inr v, s')) \<and>
   (\<exists>v s'. get_products api_shop 1 empty_store = (Inr v, s')) \<and>
   (\<exists>v s'. get_product_by_id api_shop 5 empty_store = (Inr v, s')) \<and>
   (\<exists>v s'. get_products_by_category api_shop (JStr ''home'') empty_store = (Inr v, s')) \<and>
   (\<exists>rs s'. search_products api_shop ''lamp'' None empty_store = (Inr rs, s')) \<and>
   (\<exists>rs s'. get_product_recommendations api_shop 5 1 empty_store = (Inr rs, s')) \<and>
   (\<exists>n s'. sync_categories_to_db api_shop empty_store = (Inr n, s')) \<and>
   (\<exists>n s'. sync_products_to_db api_shop 1 empty_store = (Inr n, s')) \<and>
   (\<exists>r s'. sync_all_data api_shop 1 empty_store = (Inr r, s')) \<and>
   (\<exists>rs s'. search_and_sync api_shop ''lamp'' None empty_store = (Inr rs, s'))"
proof -
  have c: "payload api_shop (base_url @ ''/products/categories'') (JArr []) = JArr (map JStr [])"
    by (simp add: payload_def api_shop_def base_url_def)
  show ?thesis
    using operations_return_normally [where ev = api_shop and s = empty_store and limit = 1
        and product_id = 5 and cat = "JStr ''home''" and query = "''lamp''" and category = None]
      c sample_fetches(1) sample_lists(1)
    by blast
qed

section \<open>Search and sync\<close>

text \<open>
  Claim C2 says that \<open>search_and_sync\<close> fetches and persists each of the first five
  products of the search result. The loop (lines 193-194) does not use its loop variable:
  for each of these results it calls \<open>sync_products_to_db\<close> with the limit 1, which syncs
  the first product of the listing. With a listing of a shirt and a lamp, the search for
  \<^verbatim>\<open>lamp\<close> returns the lamp, and the product persisted is the shirt.
\<close>

theorem search_and_sync_persists_first_listed_product:
  "fst (search_and_sync api_shop ''lamp'' None empty_store) = Inr [lamp] \<and>
   producto_names (rows (snd (search_and_sync api_shop ''lamp'' None empty_store))) = [JStr ''shirt''] \<and>
   calls (snd (search_and_sync api_shop ''lamp'' None empty_store)) =
     [''https://fakestoreapi.com/products?limit=100'', ''https://fakestoreapi.com/products?limit=1'']"
  by code_simp

end
